theory Spec2Isabelle
  imports Complex_Main "HOL-Library.Log_Nat"
begin

section \<open>Download coordinator: server/src/downloadCheckstyle.ts\<close>

subsection \<open>The version probe\<close>

text \<open>
  \<^verbatim>\<open>enum ResponseType { Found, Others, Error }\<close>
\<close>

datatype ResponseType = Found | Others | Error

text \<open>
  The response object handed to the callback of \<^verbatim>\<open>request\<close>; only its status code
  is read.
\<close>

record RequestResponse =
  statusCode :: int

text \<open>
  A JavaScript error object, as far as the code reads it: \<^verbatim>\<open>err['code']\<close> (absent on
  errors that carry no code), \<^verbatim>\<open>err.message\<close> (\<open>Some\<close> when its type is string)
  and \<^verbatim>\<open>err.toString()\<close>.
\<close>

record ErrorObject =
  code :: "string option"
  message :: "string option"
  toString :: string

text \<open>
  Progress events carry \<^verbatim>\<open>state['percent']\<close>, the fraction transferred; the
  floating-point number is taken as a rational.
\<close>

datatype StreamEvent = OnProgress rat | OnError ErrorObject | OnEnd

text \<open>
  The network is what the two \<^verbatim>\<open>request\<close> calls observe: for the probe, the
  arguments \<^verbatim>\<open>(_error, response)\<close> its callback is invoked with (\<open>None\<close> for a
  null or undefined argument); for the transfer, the events the request emits, in order.
\<close>

record network =
  probe :: "string \<Rightarrow> ErrorObject option \<times> RequestResponse option"
  stream :: "string \<Rightarrow> StreamEvent list"

definition requestForVersion :: "network \<Rightarrow> string \<Rightarrow> ResponseType" where
  "requestForVersion net url =
     (case probe net url of (err, response) \<Rightarrow>
        (case response of
           None \<Rightarrow> Error
         | Some r \<Rightarrow>
             (case err of
                Some e \<Rightarrow> Error
              | None \<Rightarrow> (if statusCode r = 302 then Found else Others))))"

subsection \<open>Notifications\<close>

datatype MessageType = MessageType_Error | MessageType_Warning | MessageType_Info | MessageType_Log

datatype DownloadStatus = downloading | finished | error

text \<open>
  Modelled from the spec: the class \<^verbatim>\<open>DownloadCheckstyleError\<close> of
  \<^verbatim>\<open>./errors\<close>, a classified error value built from a message.
\<close>

datatype DownloadCheckstyleError = DownloadCheckstyleError string

text \<open>
  The payload of a download status notification, with the fields of the object
  literals of the source; a field a literal leaves out is \<open>None\<close>. The type of the
  error is a parameter: the worker sends a \<open>DownloadCheckstyleError\<close>, the controller
  reads an error object.
\<close>

record 'e IDownloadParams =
  downloadStatus :: DownloadStatus
  percent :: "int option"
  error :: "'e option"
  downloadLink :: "string option"

datatype 'e notification =
    ShowMessageNotification MessageType string
  | VersionInvalidNotification string
  | DownloadStartNotification
  | DownloadStatusNotification "'e IDownloadParams"

subsection \<open>The world the coordinator acts on\<close>

text \<open>
  Every effect of the coordinator is appended to one trace, so that the order between
  file operations and notifications can be stated. The file system is the set of paths
  that hold a file, together with what it refuses and how long it takes:
  \<^item> \<open>locked\<close> gives, for a path whose removal fails, the error that removal raises;
  \<^item> \<open>blocked\<close> holds the paths at which a write stream cannot create a file (the
    directory is missing or cannot be written);
  \<^item> \<open>renameLatency\<close> is the number of further stream events that are handled before a
    rename that was started completes.
\<close>

datatype effect =
    Sent "DownloadCheckstyleError notification"
  | Removed string
  | Renamed string string
  | Opened string

record world =
  files :: "string set"
  locked :: "string \<rightharpoonup> ErrorObject"
  blocked :: "string set"
  renameLatency :: nat
  trace :: "effect list"

definition sendNotification :: "world \<Rightarrow> DownloadCheckstyleError notification \<Rightarrow> world" where
  "sendNotification w n = w\<lparr>trace := trace w @ [Sent n]\<rparr>"

text \<open>\<^verbatim>\<open>pathExists\<close> answers true or false and never fails.\<close>

definition pathExists :: "world \<Rightarrow> string \<Rightarrow> bool" where
  "pathExists w p = (p \<in> files w)"

text \<open>
  \<^verbatim>\<open>remove\<close> of fs-extra: the returned promise is rejected with an error (\<open>Inl\<close>) when
  the path cannot be removed, and fulfilled once the path holds no file.
\<close>

definition remove_path :: "world \<Rightarrow> string \<Rightarrow> ErrorObject + world" where
  "remove_path w p =
     (case locked w p of
        Some e \<Rightarrow> Inl e
      | None \<Rightarrow> Inr (w\<lparr>files := files w - {p}, trace := trace w @ [Removed p]\<rparr>))"

text \<open>\<^verbatim>\<open>rename\<close> fails when the source path holds no file; \<open>None\<close> is that rejection.\<close>

definition rename :: "world \<Rightarrow> string \<Rightarrow> string \<Rightarrow> world option" where
  "rename w src dst =
     (if src \<in> files w
      then Some (w\<lparr>files := insert dst (files w - {src}), trace := trace w @ [Renamed src dst]\<rparr>)
      else None)"

text \<open>
  \<^verbatim>\<open>createWriteStream\<close> returns at once; the file appears unless the path is blocked.
  The source attaches no handler to the error the write stream raises in that case.
\<close>

definition createWriteStream :: "world \<Rightarrow> string \<Rightarrow> world" where
  "createWriteStream w p =
     (if p \<in> blocked w then w
      else w\<lparr>files := insert p (files w), trace := trace w @ [Opened p]\<rparr>)"

text \<open>\<^verbatim>\<open>path.join(dir, name)\<close>; normalisation of the directory part is left out.\<close>

definition path_join :: "string \<Rightarrow> string \<Rightarrow> string" where
  "path_join dir name = dir @ ''/'' @ name"

subsection \<open>Numbers\<close>

text \<open>
  A JavaScript number is an IEEE 754 double; a finite one is modelled by the rational
  it denotes. \<open>toDouble\<close> rounds a rational to the nearest double, a tie going to the even
  significand: the significand has 53 bits, the exponent of the last place is at least
  \<open>-1074\<close>, and a result of magnitude \<open>2^1024\<close> or more is an infinity, \<open>None\<close>.
\<close>

definition roundHalfEven :: "rat \<Rightarrow> int" where
  "roundHalfEven q =
     (let f = \<lfloor>q\<rfloor>; r = q - of_int f
      in if r < 1 / 2 then f else if 1 / 2 < r then f + 1 else if even f then f else f + 1)"

text \<open>The exponent \<open>e\<close> with \<open>2^e \<le> \<bar>x\<bar> < 2^(e+1)\<close>, for \<open>x\<close> other than 0.\<close>

definition binade :: "rat \<Rightarrow> int" where
  "binade x =
     (case quotient_of \<bar>x\<bar> of (a, b) \<Rightarrow>
        (let k = bitlen a - bitlen b in if 2 powi k \<le> \<bar>x\<bar> then k else k - 1))"

definition toDouble :: "rat \<Rightarrow> rat option" where
  "toDouble x =
     (if x = 0 then Some 0
      else
        (let q = 2 powi (max (binade x) (- 1022) - 52);
             y = of_int (roundHalfEven (x / q)) * q
         in if \<bar>y\<bar> < 2 powi 1024 then Some y else None))"

text \<open>\<^verbatim>\<open>Math.round\<close> of a finite number: the nearest integer, a tie going up.\<close>

definition Math_round :: "rat \<Rightarrow> int" where
  "Math_round x = \<lfloor>x + 1 / 2\<rfloor>"

text \<open>
  \<^verbatim>\<open>Math.round(state['percent'] * 100)\<close>. The fraction of the event is read as the
  double nearest to it, the product is a double again, and the rounding is applied to
  that product. When the product is infinite so is the result, which the notification
  carries as null: \<open>None\<close>.
\<close>

definition progressPercent :: "rat \<Rightarrow> int option" where
  "progressPercent state =
     (case toDouble state of
        None \<Rightarrow> None
      | Some d \<Rightarrow> map_option Math_round (toDouble (d * 100)))"

subsection \<open>The promise and the stream handlers\<close>

datatype ('a, 'e) promise = Pending | Fulfilled 'a | Rejected 'e

text \<open>
  Calling \<^verbatim>\<open>resolve\<close> or \<^verbatim>\<open>reject\<close> settles a pending promise and does nothing to a
  settled one.
\<close>

definition resolve :: "'a \<Rightarrow> ('a, 'e) promise \<Rightarrow> ('a, 'e) promise" where
  "resolve v p = (case p of Pending \<Rightarrow> Fulfilled v | _ \<Rightarrow> p)"

definition reject :: "'e \<Rightarrow> ('a, 'e) promise \<Rightarrow> ('a, 'e) promise" where
  "reject e p = (case p of Pending \<Rightarrow> Rejected e | _ \<Rightarrow> p)"

text \<open>
  \<^verbatim>\<open>err['code'] || err.toString()\<close>: the code when it is truthy (present and not the
  empty string), the string form of the error otherwise.
\<close>

definition errorCause :: "ErrorObject \<Rightarrow> string" where
  "errorCause err =
     (case code err of
        Some c \<Rightarrow> (if c \<noteq> [] then c else toString err)
      | None \<Rightarrow> toString err)"

text \<open>
  The state of a transfer: the world, the promise of the call, and the renames that end
  handlers have started and that have not completed yet, each with the number of stream
  events still to be handled before it completes.
\<close>

type_synonym transfer = "world \<times> (bool, ErrorObject) promise \<times> nat list"

text \<open>
  The three handlers attached with \<^verbatim>\<open>.on('progress')\<close>, \<^verbatim>\<open>.on('error')\<close> and
  \<^verbatim>\<open>.on('end')\<close>. The end handler is asynchronous: it starts the rename and returns,
  and the rest of it runs when the rename has completed.
\<close>

fun onEvent :: "string \<Rightarrow> nat \<Rightarrow> StreamEvent \<Rightarrow> transfer \<Rightarrow> transfer" where
  "onEvent link latency (OnProgress state) (connection, p, pending) =
     (sendNotification connection
        (DownloadStatusNotification
           \<lparr>downloadStatus = downloading,
            percent = progressPercent state,
            error = None,
            downloadLink = None\<rparr>),
      p, pending)"
| "onEvent link latency (OnError err) (connection, p, pending) =
     (sendNotification connection
        (DownloadStatusNotification
           \<lparr>downloadStatus = DownloadStatus.error,
            percent = None,
            error = Some (DownloadCheckstyleError (''Download Checkstyle fail: '' @ errorCause err)),
            downloadLink = Some link\<rparr>),
      resolve False p, pending)"
| "onEvent link latency OnEnd (connection, p, pending) =
     (connection, p, pending @ [latency])"

text \<open>
  The rest of the end handler, after \<^verbatim>\<open>await rename(...)\<close>. When the rename is
  rejected the handler stops there: nothing is sent and the promise is not resolved.
\<close>

definition renameSettled ::
  "string \<Rightarrow> string \<Rightarrow> world \<times> (bool, ErrorObject) promise \<Rightarrow> world \<times> (bool, ErrorObject) promise"
where
  "renameSettled tempFilePath finalPath s =
     (case s of (connection, p) \<Rightarrow>
        (case rename connection tempFilePath finalPath of
           None \<Rightarrow> (connection, p)
         | Some renamed \<Rightarrow>
             (sendNotification renamed
                (DownloadStatusNotification
                   \<lparr>downloadStatus = finished,
                    percent = None,
                    error = None,
                    downloadLink = None\<rparr>),
              resolve True p)))"

text \<open>
  Before a stream event is handled, the renames that are due complete and their
  handlers run on; the other renames have one event less to wait.
\<close>

definition settleDue :: "string \<Rightarrow> string \<Rightarrow> transfer \<Rightarrow> transfer" where
  "settleDue tempFilePath finalPath s =
     (case s of (connection, p, pending) \<Rightarrow>
        (case (renameSettled tempFilePath finalPath ^^ length (filter (\<lambda>n. n = 0) pending))
                (connection, p) of
           (connection', p') \<Rightarrow>
             (connection', p', map (\<lambda>n. n - 1) (filter (\<lambda>n. 0 < n) pending))))"

fun handleEvents ::
  "string \<Rightarrow> string \<Rightarrow> string \<Rightarrow> nat \<Rightarrow> StreamEvent list \<Rightarrow> transfer \<Rightarrow> transfer"
where
  "handleEvents link tempFilePath finalPath latency [] s = s"
| "handleEvents link tempFilePath finalPath latency (ev # evs) s =
     handleEvents link tempFilePath finalPath latency evs
       (onEvent link latency ev (settleDue tempFilePath finalPath s))"

text \<open>After the last event of the stream every rename still under way completes.\<close>

definition flush ::
  "string \<Rightarrow> string \<Rightarrow> transfer \<Rightarrow> world \<times> (bool, ErrorObject) promise"
where
  "flush tempFilePath finalPath s =
     (case s of (connection, p, pending) \<Rightarrow>
        (renameSettled tempFilePath finalPath ^^ length pending) (connection, p))"

text \<open>The whole of a transfer: no rename is under way when the first event arrives.\<close>

definition dispatch ::
  "string \<Rightarrow> string \<Rightarrow> string \<Rightarrow> nat \<Rightarrow> StreamEvent list
     \<Rightarrow> world \<times> (bool, ErrorObject) promise \<Rightarrow> world \<times> (bool, ErrorObject) promise"
where
  "dispatch link tempFilePath finalPath latency evs s =
     flush tempFilePath finalPath
       (handleEvents link tempFilePath finalPath latency evs (fst s, snd s, []))"

subsection \<open>downloadCheckstyle\<close>

definition checkstyleJar :: "string \<Rightarrow> string" where
  "checkstyleJar version = ''checkstyle-'' @ version @ ''-all.jar''"

definition downloadLink_of :: "string \<Rightarrow> string" where
  "downloadLink_of version =
     ''https://sourceforge.net/projects/checkstyle/files/checkstyle/'' @ version @ ''/''
       @ checkstyleJar version @ ''/download''"

definition tempFilePath_of :: "string \<Rightarrow> string \<Rightarrow> string" where
  "tempFilePath_of downloadPath version = path_join downloadPath (checkstyleJar version @ ''.download'')"

text \<open>
  Lines 36 to 38: \<^verbatim>\<open>if (await pathExists(tempFilePath)) { await remove(tempFilePath); }\<close>.
  \<open>Inl\<close> is the error a failing removal throws.
\<close>

definition clearTempFile :: "world \<Rightarrow> string \<Rightarrow> ErrorObject + world" where
  "clearTempFile connection tempFilePath =
     (if pathExists connection tempFilePath then remove_path connection tempFilePath
      else Inr connection)"

text \<open>
  Lines 40 to 75, the promise the function returns at its end: \<open>DownloadStart\<close> is
  sent, the request is piped into the write stream, and the events of the stream are
  handled.
\<close>

definition transferArtifact ::
  "network \<Rightarrow> world \<Rightarrow> string \<Rightarrow> string \<Rightarrow> world \<times> (bool, ErrorObject) promise"
where
  "transferArtifact net connection downloadPath version =
     (let link = downloadLink_of version;
          tempFilePath = tempFilePath_of downloadPath version;
          w2 = sendNotification connection DownloadStartNotification;
          w3 = createWriteStream w2 tempFilePath
      in dispatch link tempFilePath (path_join downloadPath (checkstyleJar version))
           (renameLatency connection) (stream net link) (w3, Pending))"

text \<open>
  The connection and the file system are the world; the result is the world after the
  call and the state of the returned promise. An error thrown by an awaited call that no
  handler catches rejects that promise. The switch has a default branch that returns
  false; no value of the enumeration reaches it.
\<close>

definition downloadCheckstyle ::
  "network \<Rightarrow> world \<Rightarrow> string \<Rightarrow> string \<Rightarrow> string \<Rightarrow> world \<times> (bool, ErrorObject) promise"
where
  "downloadCheckstyle net connection downloadPath version textDocumentUri =
     (let link = downloadLink_of version;
          response = requestForVersion net link
      in case response of
           Found \<Rightarrow>
             (case clearTempFile connection (tempFilePath_of downloadPath version) of
                Inl e \<Rightarrow> (connection, Rejected e)
              | Inr cleared \<Rightarrow> transferArtifact net cleared downloadPath version)
         | Error \<Rightarrow>
             (sendNotification connection
                (ShowMessageNotification MessageType_Error
                   ''Failed to download CheckStyle, please try again later.''),
              Fulfilled False)
         | Others \<Rightarrow>
             (sendNotification connection (VersionInvalidNotification textDocumentUri),
              Fulfilled False))"

text \<open>The three status notifications the handlers send.\<close>

abbreviation downloadingStatus :: "int \<Rightarrow> 'e notification" where
  "downloadingStatus k \<equiv>
     DownloadStatusNotification
       \<lparr>downloadStatus = downloading, percent = Some k, error = None, downloadLink = None\<rparr>"

abbreviation finishedStatus :: "'e notification" where
  "finishedStatus \<equiv>
     DownloadStatusNotification
       \<lparr>downloadStatus = finished, percent = None, error = None, downloadLink = None\<rparr>"

abbreviation errorStatus :: "string \<Rightarrow> string \<Rightarrow> DownloadCheckstyleError notification" where
  "errorStatus msg link \<equiv>
     DownloadStatusNotification
       \<lparr>downloadStatus = DownloadStatus.error, percent = None,
        error = Some (DownloadCheckstyleError msg), downloadLink = Some link\<rparr>"

text \<open>The effects a call added to the trace: those of \<open>w'\<close> after those of \<open>w\<close>.\<close>

definition emitted :: "world \<Rightarrow> world \<Rightarrow> effect list" where
  "emitted w w' = drop (length (trace w)) (trace w')"

text \<open>The notifications of a trace, in the order they were sent.\<close>

fun sent :: "effect list \<Rightarrow> DownloadCheckstyleError notification list" where
  "sent [] = []"
| "sent (Sent n # es) = n # sent es"
| "sent (e # es) = sent es"

text \<open>
  What the claim on the notification sequence of one download task asks of a sequence:
  one \<open>DownloadStart\<close> first, then \<open>downloading\<close> statuses with percents in 0..100 that
  never decrease, then one terminal status (\<open>finished\<close> or \<open>error\<close>) as the last element.
\<close>

fun isDownloading :: "'e notification \<Rightarrow> bool" where
  "isDownloading (DownloadStatusNotification param) = (downloadStatus param = downloading)"
| "isDownloading _ = False"

fun isTerminal :: "'e notification \<Rightarrow> bool" where
  "isTerminal (DownloadStatusNotification param) =
     (downloadStatus param = finished \<or> downloadStatus param = DownloadStatus.error)"
| "isTerminal _ = False"

fun percentOf :: "'e notification \<Rightarrow> int option" where
  "percentOf (DownloadStatusNotification param) = percent param"
| "percentOf _ = None"

definition percentInRange :: "'e notification \<Rightarrow> bool" where
  "percentInRange n = (case percentOf n of Some k \<Rightarrow> 0 \<le> k \<and> k \<le> 100 | None \<Rightarrow> False)"

fun nonDecreasing :: "int option list \<Rightarrow> bool" where
  "nonDecreasing (Some a # Some b # rest) = (a \<le> b \<and> nonDecreasing (Some b # rest))"
| "nonDecreasing [Some a] = True"
| "nonDecreasing [] = True"
| "nonDecreasing _ = False"

definition taskSequence :: "'e notification list \<Rightarrow> bool" where
  "taskSequence ns =
     (case ns of
        DownloadStartNotification # rest \<Rightarrow>
          rest \<noteq> [] \<and> isTerminal (last rest)
          \<and> list_all isDownloading (butlast rest)
          \<and> list_all percentInRange (butlast rest)
          \<and> nonDecreasing (map percentOf (butlast rest))
      | _ \<Rightarrow> False)"

text \<open>
  In a list of effects, every \<open>finished\<close> status comes directly after the rename of
  \<open>t\<close> to \<open>f\<close>.
\<close>

definition renamedFirst :: "string \<Rightarrow> string \<Rightarrow> effect list \<Rightarrow> bool" where
  "renamedFirst t f es =
     (\<forall>pre post. es = pre @ Sent finishedStatus # post \<longrightarrow> (\<exists>pre'. pre = pre' @ [Renamed t f]))"

text \<open>
  What every step of a transfer keeps, from a world \<open>w\<close> to a later world \<open>w'\<close>: the
  trace only grows, a \<open>finished\<close> status it gains follows the rename, once one was
  sent the temporary path \<open>t\<close> holds no file and the final path \<open>f\<close> holds one, and as
  long as \<open>t\<close> holds no file the files stay as they are.
\<close>

definition advances :: "string \<Rightarrow> string \<Rightarrow> world \<Rightarrow> world \<Rightarrow> bool" where
  "advances t f w w' =
     (\<exists>es. trace w' = trace w @ es \<and> renamedFirst t f es
        \<and> (Sent finishedStatus \<in> set es \<longrightarrow> t \<notin> files w' \<and> f \<in> files w')
        \<and> (t \<notin> files w \<longrightarrow> files w' = files w))"

text \<open>
  What every step of a transfer does to the promise: it leaves it as it is, or fulfils
  it when it was pending.
\<close>

definition fulfils :: "('a, 'e) promise \<Rightarrow> ('a, 'e) promise \<Rightarrow> bool" where
  "fulfils p p' = (p' = p \<or> (p = Pending \<and> (\<exists>b. p' = Fulfilled b)))"

section \<open>Controller: the extension entry point\<close>

subsection \<open>Configuration.computeConfiguration\<close>

record ConfigurationItem =
  item_section :: "string option"
  scopeUri :: "string option"

text \<open>\<open>items\<close> is \<open>None\<close> when the parameters carry no \<^verbatim>\<open>items\<close> property.\<close>

record ConfigurationParams =
  items :: "ConfigurationItem list option"

record ICheckStyleSettings =
  autocheck :: bool
  version :: string
  configurationFile :: string
  propertiesPath :: "string option"

text \<open>
  A \<^verbatim>\<open>WorkspaceConfiguration\<close>: for each of the four keys the code reads, the value the
  configuration store holds, \<open>None\<close> when the key is unset.
\<close>

record WorkspaceConfiguration =
  stored_autocheck :: "bool option"
  stored_version :: "string option"
  stored_configurationFile :: "string option"
  stored_propertiesPath :: "string option"

text \<open>\<^verbatim>\<open>config.get(key, defaultValue)\<close>\<close>

definition get_or :: "'a option \<Rightarrow> 'a \<Rightarrow> 'a" where
  "get_or stored defaultValue = (case stored of Some v \<Rightarrow> v | None \<Rightarrow> defaultValue)"

text \<open>
  The editor: \<^verbatim>\<open>client.protocol2CodeConverter.asUri\<close> and
  \<^verbatim>\<open>workspace.getConfiguration(section, resource)\<close>, the resource \<open>None\<close> in the call
  with one argument.
\<close>

record 'u editor =
  asUri :: "string \<Rightarrow> 'u"
  getConfiguration :: "string \<Rightarrow> 'u option \<Rightarrow> WorkspaceConfiguration"

text \<open>The truth value JavaScript gives an optional string: absent and empty are false.\<close>

definition truthy :: "string option \<Rightarrow> bool" where
  "truthy s = (case s of None \<Rightarrow> False | Some t \<Rightarrow> t \<noteq> [])"

text \<open>The body of the loop over \<^verbatim>\<open>params.items\<close>: what is pushed for one item.\<close>

definition resolveItem :: "'u editor \<Rightarrow> ConfigurationItem \<Rightarrow> ICheckStyleSettings option" where
  "resolveItem ed item =
     (if truthy (item_section item) then None
      else
        (let config =
               (case scopeUri item of
                  Some u \<Rightarrow>
                    (if u \<noteq> [] then getConfiguration ed ''checkstyle'' (Some (asUri ed u))
                     else getConfiguration ed ''checkstyle'' None)
                | None \<Rightarrow> getConfiguration ed ''checkstyle'' None)
         in Some \<lparr>autocheck = get_or (stored_autocheck config) False,
                   version = get_or (stored_version config) ''8.0'',
                   configurationFile = get_or (stored_configurationFile config) ''google_checks'',
                   propertiesPath = stored_propertiesPath config\<rparr>))"

fun pushItems ::
  "'u editor \<Rightarrow> ConfigurationItem list \<Rightarrow> ICheckStyleSettings option list
     \<Rightarrow> ICheckStyleSettings option list"
where
  "pushItems ed [] result = result"
| "pushItems ed (item # rest) result = pushItems ed rest (result @ [resolveItem ed item])"

definition computeConfiguration ::
  "'u editor \<Rightarrow> ConfigurationParams \<Rightarrow> ICheckStyleSettings option list option"
where
  "computeConfiguration ed params =
     (case items params of
        None \<Rightarrow> None
      | Some its \<Rightarrow> Some (pushItems ed its []))"

text \<open>The number of items a query carries.\<close>

definition itemCount :: "ConfigurationParams \<Rightarrow> nat" where
  "itemCount params = (case items params of None \<Rightarrow> 0 | Some its \<Rightarrow> length its)"

subsection \<open>initCommand and getErrorMessage\<close>

text \<open>What the controller shows, in the order it does.\<close>

datatype ui_effect =
    AppendLine string
  | ShowErrorMessage string
  | ShowWarningMessage string
  | ReportFetching nat
  | ReportDownloading nat "int option"

definition getErrorMessage :: "ErrorObject \<Rightarrow> string" where
  "getErrorMessage err =
     (let errorMessage = (case message err of Some m \<Rightarrow> m | None \<Rightarrow> toString err)
      in ''Checkstyle Error: - '' @ [CHR 0x27] @ errorMessage @ [CHR 0x27])"

text \<open>
  The value a callback throws: an instance of \<^verbatim>\<open>UserCancelledError\<close>, or any other
  error object.
\<close>

datatype thrown = UserCancelledError | OtherError ErrorObject

datatype callback_result = Returned | Threw thrown

text \<open>
  The function \<^verbatim>\<open>initCommand\<close> registers for a command, run on the outcome of the
  callback.
\<close>

definition initCommand :: "callback_result \<Rightarrow> ui_effect list \<Rightarrow> ui_effect list" where
  "initCommand outcome ui =
     (case outcome of
        Returned \<Rightarrow> ui
      | Threw err \<Rightarrow>
          (case err of
             UserCancelledError \<Rightarrow> ui
           | OtherError e \<Rightarrow>
               (let errMsg = getErrorMessage e
                in ui @ [AppendLine errMsg, ShowErrorMessage errMsg])))"

subsection \<open>registerClientListener\<close>

text \<open>
  \<^verbatim>\<open>client.onNotification(type, handler)\<close> keeps one handler for a notification type:
  a registration puts the new handler in the place of the one before. The handler of
  download status notifications closes over the progress and the promise of one
  \<^verbatim>\<open>withProgress\<close> call; it is named by the position of that call in \<open>progressTasks\<close>.
\<close>

record controller =
  statusHandler :: "nat option"
  progressTasks :: "(unit, ErrorObject) promise list"
  shown :: "ui_effect list"

definition registerClientListener :: controller where
  "registerClientListener = \<lparr>statusHandler = None, progressTasks = [], shown = []\<rparr>"

text \<open>The handler registered inside the \<^verbatim>\<open>withProgress\<close> call number \<open>k\<close>.\<close>

definition onDownloadStatus :: "nat \<Rightarrow> ErrorObject IDownloadParams \<Rightarrow> controller \<Rightarrow> controller" where
  "onDownloadStatus k param c =
     (case downloadStatus param of
        downloading \<Rightarrow> c\<lparr>shown := shown c @ [ReportDownloading k (percent param)]\<rparr>
      | finished \<Rightarrow> c\<lparr>progressTasks := (progressTasks c)[k := resolve () (progressTasks c ! k)]\<rparr>
      | DownloadStatus.error \<Rightarrow>
          (case error param of
             None \<Rightarrow> c
           | Some e \<Rightarrow>
               c\<lparr>shown := shown c @ [ShowWarningMessage (getErrorMessage e)],
                 progressTasks := (progressTasks c)[k := reject e (progressTasks c ! k)]\<rparr>))"

text \<open>
  A notification arrives. A status notification goes to the handler registered at that
  moment, and is dropped when there is none.
\<close>

fun receive :: "controller \<Rightarrow> ErrorObject notification \<Rightarrow> controller" where
  "receive c DownloadStartNotification =
     (let k = length (progressTasks c)
      in c\<lparr>progressTasks := progressTasks c @ [Pending],
            shown := shown c @ [ReportFetching k],
            statusHandler := Some k\<rparr>)"
| "receive c (DownloadStatusNotification param) =
     (case statusHandler c of
        None \<Rightarrow> c
      | Some k \<Rightarrow> onDownloadStatus k param c)"
| "receive c (VersionInvalidNotification uri) =
     c\<lparr>shown := shown c @
        [ShowWarningMessage
           ''The Checkstyle version does not exist on download server. Would you like to update it?'']\<rparr>"
| "receive c (ShowMessageNotification t m) = c"

fun receiveAll :: "controller \<Rightarrow> ErrorObject notification list \<Rightarrow> controller" where
  "receiveAll c [] = c"
| "receiveAll c (n # ns) = receiveAll (receive c n) ns"

section \<open>Properties of the download coordinator\<close>

subsection \<open>What every step of a transfer keeps\<close>



lemma renamedFirst_append:
  assumes "renamedFirst t f a" and "renamedFirst t f b"
  shows "renamedFirst t f (a @ b)"
  unfolding renamedFirst_def
proof (intro allI impI)
  fix pre post
  assume eq: "a @ b = pre @ Sent finishedStatus # post"
  then consider us where "a = pre @ us" "us @ b = Sent finishedStatus # post"
    | us where "a @ us = pre" "b = us @ Sent finishedStatus # post"
    by (auto simp: append_eq_append_conv2)
  then show "\<exists>pre'. pre = pre' @ [Renamed t f]"
  proof cases
    case 1
    show ?thesis
    proof (cases us)
      case Nil
      with 1 have "b = [] @ Sent finishedStatus # post" by simp
      with assms(2) have "\<exists>pre'. [] = pre' @ [Renamed t f]"
        unfolding renamedFirst_def by blast
      then show ?thesis by simp
    next
      case (Cons u us')
      with 1 have "a = pre @ Sent finishedStatus # us'" by simp
      with assms(1) show ?thesis unfolding renamedFirst_def by blast
    qed
  next
    case 2
    with assms(2) obtain pre' where "us = pre' @ [Renamed t f]"
      unfolding renamedFirst_def by blast
    with 2 have "pre = (a @ pre') @ [Renamed t f]" by simp
    then show ?thesis by blast
  qed
qed

lemma renamedFirst_absent: "Sent finishedStatus \<notin> set es \<Longrightarrow> renamedFirst t f es"
  by (auto simp: renamedFirst_def)

lemma renamedFirst_pair: "renamedFirst t f [Renamed t f, Sent finishedStatus]"
  by (auto simp: renamedFirst_def Cons_eq_append_conv)

lemma advances_refl: "advances t f w w"
  by (simp add: advances_def renamedFirst_absent)

lemma advances_trans:
  assumes "advances t f w w'" and "advances t f w' w''"
  shows "advances t f w w''"
proof -
  from assms(1) obtain a where a: "trace w' = trace w @ a" "renamedFirst t f a"
      "Sent finishedStatus \<in> set a \<longrightarrow> t \<notin> files w' \<and> f \<in> files w'"
      "t \<notin> files w \<longrightarrow> files w' = files w"
    unfolding advances_def by blast
  from assms(2) obtain b where b: "trace w'' = trace w' @ b" "renamedFirst t f b"
      "Sent finishedStatus \<in> set b \<longrightarrow> t \<notin> files w'' \<and> f \<in> files w''"
      "t \<notin> files w' \<longrightarrow> files w'' = files w'"
    unfolding advances_def by blast
  have "trace w'' = trace w @ (a @ b)"
    using a(1) b(1) by simp
  moreover have "renamedFirst t f (a @ b)"
    by (rule renamedFirst_append [OF a(2) b(2)])
  moreover have "Sent finishedStatus \<in> set (a @ b) \<longrightarrow> t \<notin> files w'' \<and> f \<in> files w''"
    using a(3) b(3) b(4) by auto
  moreover have "t \<notin> files w \<longrightarrow> files w'' = files w"
    using a(4) b(4) by auto
  ultimately show ?thesis
    unfolding advances_def by blast
qed

lemma advances_send:
  assumes "n \<noteq> finishedStatus"
  shows "advances t f w (sendNotification w n)"
proof -
  have "Sent finishedStatus \<notin> set [Sent n]"
    using assms by auto
  then have "renamedFirst t f [Sent n]"
    by (rule renamedFirst_absent)
  then show ?thesis
    using assms unfolding advances_def by (auto simp: sendNotification_def)
qed

lemma renameSettled_absent:
  "t \<notin> files w \<Longrightarrow> renameSettled t f (w, p) = (w, p)"
  by (simp add: renameSettled_def rename_def)

lemma renameSettled_present:
  "t \<in> files w \<Longrightarrow>
     renameSettled t f (w, p) =
       (w\<lparr>files := insert f (files w - {t}), trace := trace w @ [Renamed t f, Sent finishedStatus]\<rparr>,
        resolve True p)"
  by (simp add: renameSettled_def rename_def sendNotification_def)

lemma settles_absent:
  "t \<notin> files w \<Longrightarrow> (renameSettled t f ^^ n) (w, p) = (w, p)"
  by (induction n) (simp_all add: renameSettled_absent)

lemma settles_present:
  assumes "t \<noteq> f" and "t \<in> files w" and "0 < n"
  shows "(renameSettled t f ^^ n) (w, p) =
       (w\<lparr>files := insert f (files w - {t}), trace := trace w @ [Renamed t f, Sent finishedStatus]\<rparr>,
        resolve True p)"
proof -
  from assms(3) obtain m where n: "n = Suc m" by (cases n) auto
  let ?w = "w\<lparr>files := insert f (files w - {t}), trace := trace w @ [Renamed t f, Sent finishedStatus]\<rparr>"
  have gone: "t \<notin> files ?w" using assms(1) by simp
  have "(renameSettled t f ^^ n) (w, p) = (renameSettled t f ^^ m) (renameSettled t f (w, p))"
    unfolding n by (simp add: funpow_swap1)
  also have "\<dots> = (renameSettled t f ^^ m) (?w, resolve True p)"
    by (simp only: renameSettled_present [OF assms(2)])
  also have "\<dots> = (?w, resolve True p)"
    by (rule settles_absent [OF gone])
  finally show ?thesis .
qed

lemma advances_renamed:
  assumes "t \<noteq> f" and "t \<in> files w"
  shows "advances t f w
     (w\<lparr>files := insert f (files w - {t}), trace := trace w @ [Renamed t f, Sent finishedStatus]\<rparr>)"
  unfolding advances_def using assms renamedFirst_pair [of t f]
  by (intro exI [of _ "[Renamed t f, Sent finishedStatus]"]) simp

lemma advances_settles:
  assumes "t \<noteq> f"
  shows "advances t f w (fst ((renameSettled t f ^^ n) (w, p)))"
proof (cases "t \<in> files w \<and> 0 < n")
  case True
  then show ?thesis
    by (simp add: settles_present [OF assms] advances_renamed [OF assms])
next
  case False
  then consider "t \<notin> files w" | "n = 0" by auto
  then show ?thesis
    by cases (simp_all add: settles_absent advances_refl)
qed

lemma advances_settleDue:
  assumes "t \<noteq> f"
  shows "advances t f w (fst (settleDue t f (w, p, pending)))"
proof -
  let ?n = "length (filter (\<lambda>n. n = 0) pending)"
  obtain w' p' where s: "(renameSettled t f ^^ ?n) (w, p) = (w', p')"
    by (cases "(renameSettled t f ^^ ?n) (w, p)")
  from advances_settles [OF assms, of w ?n p] s have "advances t f w w'" by simp
  then show ?thesis by (simp add: settleDue_def s)
qed

lemma advances_onEvent: "advances t f w (fst (onEvent l lat ev (w, p, pending)))"
  by (cases ev) (simp_all add: advances_send advances_refl)

lemma advances_handleEvents:
  assumes "t \<noteq> f"
  shows "advances t f (fst s) (fst (handleEvents l t f lat evs s))"
proof (induction evs arbitrary: s)
  case Nil
  show ?case by (simp add: advances_refl)
next
  case (Cons ev evs)
  obtain w p pending where s: "s = (w, p, pending)" by (cases s)
  obtain w1 p1 pending1 where s1: "settleDue t f (w, p, pending) = (w1, p1, pending1)"
    by (cases "settleDue t f (w, p, pending)")
  have a: "advances t f w w1"
    using advances_settleDue [OF assms, of w p pending] s1 by simp
  have b: "advances t f w1 (fst (onEvent l lat ev (w1, p1, pending1)))"
    by (rule advances_onEvent)
  have c: "advances t f (fst (onEvent l lat ev (w1, p1, pending1)))
      (fst (handleEvents l t f lat evs (onEvent l lat ev (w1, p1, pending1))))"
    by (rule Cons.IH)
  from advances_trans [OF advances_trans [OF a b] c] show ?case
    by (simp add: s s1)
qed

lemma advances_flush:
  assumes "t \<noteq> f"
  shows "advances t f w (fst (flush t f (w, p, pending)))"
  using advances_settles [OF assms] by (simp add: flush_def)

lemma advances_run:
  assumes "t \<noteq> f"
  shows "advances t f w (fst (flush t f (handleEvents l t f lat evs (w, p, pending))))"
proof -
  obtain w1 p1 pending1 where h: "handleEvents l t f lat evs (w, p, pending) = (w1, p1, pending1)"
    by (cases "handleEvents l t f lat evs (w, p, pending)")
  from advances_handleEvents [OF assms, of "(w, p, pending)" l lat evs] h
  have a: "advances t f w w1" by simp
  have b: "advances t f w1 (fst (flush t f (w1, p1, pending1)))"
    by (rule advances_flush [OF assms])
  from advances_trans [OF a b] show ?thesis
    by (simp add: h)
qed

lemma advances_dispatch:
  assumes "t \<noteq> f"
  shows "advances t f w (fst (dispatch l t f lat evs (w, p)))"
  using advances_run [OF assms] by (simp add: dispatch_def)

subsection \<open>What the handlers do to the promise\<close>

lemma fulfils_refl: "fulfils p p"
  by (simp add: fulfils_def)

lemma fulfils_trans: "fulfils p p' \<Longrightarrow> fulfils p' p'' \<Longrightarrow> fulfils p p''"
  by (auto simp: fulfils_def)

lemma fulfils_resolve: "fulfils p (resolve v p)"
  by (cases p) (simp_all add: fulfils_def resolve_def)

lemma fulfils_renameSettled: "fulfils p (snd (renameSettled t f (w, p)))"
  by (simp add: renameSettled_def fulfils_refl fulfils_resolve split: option.split)

lemma fulfils_settles: "fulfils p (snd ((renameSettled t f ^^ n) (w, p)))"
proof (induction n)
  case 0
  show ?case by (simp add: fulfils_refl)
next
  case (Suc n)
  obtain w' p' where s: "(renameSettled t f ^^ n) (w, p) = (w', p')"
    by (cases "(renameSettled t f ^^ n) (w, p)")
  from Suc s have "fulfils p p'" by simp
  moreover have "fulfils p' (snd (renameSettled t f (w', p')))"
    by (rule fulfils_renameSettled)
  ultimately show ?case
    by (simp add: s fulfils_trans)
qed

lemma fulfils_settleDue: "fulfils p (fst (snd (settleDue t f (w, p, pending))))"
proof -
  let ?n = "length (filter (\<lambda>n. n = 0) pending)"
  obtain w' p' where s: "(renameSettled t f ^^ ?n) (w, p) = (w', p')"
    by (cases "(renameSettled t f ^^ ?n) (w, p)")
  from fulfils_settles [where p = p and t = t and f = f and n = ?n and w = w] s show ?thesis
    by (simp add: settleDue_def)
qed

lemma fulfils_onEvent: "fulfils p (fst (snd (onEvent l lat ev (w, p, pending))))"
  by (cases ev) (simp_all add: fulfils_refl fulfils_resolve)

lemma fulfils_handleEvents:
  "fulfils (fst (snd s)) (fst (snd (handleEvents l t f lat evs s)))"
proof (induction evs arbitrary: s)
  case Nil
  show ?case by (simp add: fulfils_refl)
next
  case (Cons ev evs)
  obtain w p pending where s: "s = (w, p, pending)" by (cases s)
  obtain w1 p1 pending1 where s1: "settleDue t f (w, p, pending) = (w1, p1, pending1)"
    by (cases "settleDue t f (w, p, pending)")
  have a: "fulfils p p1"
    using fulfils_settleDue [where p = p and t = t and f = f and w = w and pending = pending] s1
    by simp
  have b: "fulfils p1 (fst (snd (onEvent l lat ev (w1, p1, pending1))))"
    by (rule fulfils_onEvent)
  have c: "fulfils (fst (snd (onEvent l lat ev (w1, p1, pending1))))
      (fst (snd (handleEvents l t f lat evs (onEvent l lat ev (w1, p1, pending1)))))"
    by (rule Cons.IH)
  from fulfils_trans [OF fulfils_trans [OF a b] c] show ?case
    by (simp add: s s1)
qed

lemma fulfils_run:
  "fulfils p (snd (flush t f (handleEvents l t f lat evs (w, p, pending))))"
proof -
  obtain w1 p1 pending1 where h: "handleEvents l t f lat evs (w, p, pending) = (w1, p1, pending1)"
    by (cases "handleEvents l t f lat evs (w, p, pending)")
  from fulfils_handleEvents [of "(w, p, pending)" l t f lat evs] h
  have a: "fulfils p p1" by simp
  have b: "fulfils p1 (snd (flush t f (w1, p1, pending1)))"
    using fulfils_settles by (simp add: flush_def)
  from fulfils_trans [OF a b] show ?thesis
    by (simp add: h)
qed

lemma fulfils_dispatch: "fulfils p (snd (dispatch l t f lat evs (w, p)))"
  using fulfils_run by (simp add: dispatch_def)

lemma handleEvents_append:
  "handleEvents l t f lat (xs @ ys) s = handleEvents l t f lat ys (handleEvents l t f lat xs s)"
  by (induction xs arbitrary: s) simp_all

lemma settleDue_idle: "settleDue t f (w, p, []) = (w, p, [])"
  by (simp add: settleDue_def)

text \<open>As long as the stream has not ended no rename is under way.\<close>

lemma handleEvents_no_end:
  assumes "OnEnd \<notin> set evs"
  shows "\<exists>w' p'. handleEvents l t f lat evs (w, p, []) = (w', p', [])
           \<and> (p = Pending \<or> p = Fulfilled False \<longrightarrow> p' = Pending \<or> p' = Fulfilled False)
           \<and> advances t f w w'"
  using assms
proof (induction evs arbitrary: w p)
  case Nil
  show ?case by (simp add: advances_refl)
next
  case (Cons ev evs)
  from Cons.prems have ne: "ev \<noteq> OnEnd" and rest: "OnEnd \<notin> set evs" by auto
  obtain w1 p1 where s1: "onEvent l lat ev (w, p, []) = (w1, p1, [])"
    and p1: "p = Pending \<or> p = Fulfilled False \<longrightarrow> p1 = Pending \<or> p1 = Fulfilled False"
    using ne by (cases ev) (auto simp: resolve_def)
  have a: "advances t f w w1"
    using advances_onEvent [of t f w l lat ev p "[]"] s1 by simp
  from Cons.IH [OF rest, of w1 p1] obtain w' p' where
    h: "handleEvents l t f lat evs (w1, p1, []) = (w', p', [])"
    and p': "p1 = Pending \<or> p1 = Fulfilled False \<longrightarrow> p' = Pending \<or> p' = Fulfilled False"
    and b: "advances t f w1 w'"
    by blast
  have "handleEvents l t f lat (ev # evs) (w, p, []) = (w', p', [])"
    by (simp add: settleDue_idle s1 h)
  moreover have "p = Pending \<or> p = Fulfilled False \<longrightarrow> p' = Pending \<or> p' = Fulfilled False"
    using p1 p' by blast
  moreover have "advances t f w w'"
    by (rule advances_trans [OF a b])
  ultimately show ?case by blast
qed

subsection \<open>The rename and the finished status\<close>



lemma emitted_append: "trace w' = trace w @ es \<Longrightarrow> emitted w w' = es"
  by (simp add: emitted_def)

lemma emitted_split:
  assumes "advances t f w w1" and "advances t f w1 w'"
  shows "emitted w w' = emitted w w1 @ emitted w1 w'"
proof -
  from assms(1) obtain a where a: "trace w1 = trace w @ a"
    unfolding advances_def by blast
  from assms(2) obtain b where b: "trace w' = trace w1 @ b"
    unfolding advances_def by blast
  have "trace w' = trace w @ (a @ b)" using a b by simp
  then have "emitted w w' = a @ b" by (rule emitted_append)
  with emitted_append [OF a] emitted_append [OF b] show ?thesis by simp
qed

lemma onEvent_files: "files (fst (onEvent l lat ev (w, p, pending))) = files w"
  by (cases ev) (simp_all add: sendNotification_def)

lemma onEvent_pending:
  "snd (snd (onEvent l lat ev (w, p, pending))) = (if ev = OnEnd then pending @ [lat] else pending)"
  by (cases ev) simp_all

text \<open>
  Once the stream has ended, or while a rename is under way, a temporary file that is
  there is renamed and the \<open>finished\<close> status is sent.
\<close>

lemma finished_sent:
  assumes "t \<noteq> f" and "t \<in> files w" and "pending \<noteq> [] \<or> OnEnd \<in> set evs"
  shows "Sent finishedStatus
           \<in> set (emitted w (fst (flush t f (handleEvents l t f lat evs (w, p, pending)))))"
  using assms(2,3)
proof (induction evs arbitrary: w p pending)
  case Nil
  then have "0 < length pending" by simp
  from settles_present [OF assms(1) Nil.prems(1) this, of p]
  have "trace (fst (flush t f (w, p, pending))) = trace w @ [Renamed t f, Sent finishedStatus]"
    by (simp add: flush_def)
  from emitted_append [OF this] show ?case by simp
next
  case (Cons ev evs)
  let ?z = "length (filter (\<lambda>n. n = 0) pending)"
  obtain w1 p1 pending1 where s1: "settleDue t f (w, p, pending) = (w1, p1, pending1)"
    by (cases "settleDue t f (w, p, pending)")
  obtain w2 p2 pending2 where s2: "onEvent l lat ev (w1, p1, pending1) = (w2, p2, pending2)"
    by (cases "onEvent l lat ev (w1, p1, pending1)")
  let ?final = "fst (flush t f (handleEvents l t f lat evs (w2, p2, pending2)))"
  have final: "fst (flush t f (handleEvents l t f lat (ev # evs) (w, p, pending))) = ?final"
    by (simp add: s1 s2)
  have a1: "advances t f w w1"
    using advances_settleDue [OF assms(1), of w p pending] s1 by simp
  have a2: "advances t f w1 w2"
    using advances_onEvent [of t f w1 l lat ev p1 pending1] s2 by simp
  have a3: "advances t f w2 ?final"
    by (rule advances_run [OF assms(1)])
  have split: "emitted w ?final = emitted w w1 @ emitted w1 w2 @ emitted w2 ?final"
    using emitted_split [OF a1 advances_trans [OF a2 a3]] emitted_split [OF a2 a3] by simp
  show ?case
  proof (cases "0 < ?z")
    case True
    from settles_present [OF assms(1) Cons.prems(1) True, of p] s1
    have "trace w1 = trace w @ [Renamed t f, Sent finishedStatus]"
      by (auto simp: settleDue_def)
    from emitted_append [OF this] have "Sent finishedStatus \<in> set (emitted w w1)"
      by simp
    with split show ?thesis
      unfolding final by simp
  next
    case False
    then have none: "filter (\<lambda>n. n = 0) pending = []" by simp
    then have all: "filter (\<lambda>n. 0 < n) pending = pending"
      by (auto simp: filter_empty_conv filter_id_conv)
    from s1 none all have w1: "w1 = w" and pd1: "pending1 = map (\<lambda>n. n - 1) pending"
      by (simp_all add: settleDue_def)
    have there: "t \<in> files w2"
      using onEvent_files [of l lat ev w1 p1 pending1] s2 w1 Cons.prems(1) by simp
    have pd2: "pending2 = (if ev = OnEnd then pending1 @ [lat] else pending1)"
      using onEvent_pending [of l lat ev w1 p1 pending1] s2 by simp
    have more: "pending2 \<noteq> [] \<or> OnEnd \<in> set evs"
      using Cons.prems(2) pd1 pd2 by auto
    from Cons.IH [OF there more, of p2]
    have "Sent finishedStatus \<in> set (emitted w2 ?final)" .
    with split show ?thesis
      unfolding final by simp
  qed
qed

lemma temp_differs: "tempFilePath_of dir ver \<noteq> path_join dir (checkstyleJar ver)"
  by (simp add: tempFilePath_of_def path_join_def)

lemma sent_append: "sent (a @ b) = sent a @ sent b"
  by (induction a rule: sent.induct) simp_all

text \<open>The call, once the probe has found the version.\<close>

lemma clearTempFile_cases:
  obtains (failed) e where "t \<in> files w" "locked w t = Some e" "clearTempFile w t = Inl e"
  | (removed) "t \<in> files w" "locked w t = None"
      "clearTempFile w t = Inr (w\<lparr>files := files w - {t}, trace := trace w @ [Removed t]\<rparr>)"
  | (absent) "t \<notin> files w" "clearTempFile w t = Inr w"
  by (cases "t \<in> files w"; cases "locked w t")
     (auto simp: clearTempFile_def pathExists_def remove_path_def)

lemma clearTempFile_cleared:
  assumes "clearTempFile w t = Inr w1"
  shows "t \<notin> files w1" and "blocked w1 = blocked w" and "renameLatency w1 = renameLatency w"
    and "trace w1 = trace w @ (if t \<in> files w then [Removed t] else [])"
  using assms by (cases rule: clearTempFile_cases [of t w]; auto)+

lemma transferArtifact_run:
  "transferArtifact net w1 dir ver =
     dispatch (downloadLink_of ver) (tempFilePath_of dir ver) (path_join dir (checkstyleJar ver))
       (renameLatency w1) (stream net (downloadLink_of ver))
       (createWriteStream (sendNotification w1 DownloadStartNotification) (tempFilePath_of dir ver),
        Pending)"
  by (simp add: transferArtifact_def Let_def sendNotification_def createWriteStream_def)

lemma stream_opened:
  "trace (createWriteStream (sendNotification w1 DownloadStartNotification) t) =
     trace w1 @ Sent DownloadStartNotification # (if t \<in> blocked w1 then [] else [Opened t])"
  "t \<notin> blocked w1 \<Longrightarrow> t \<in> files (createWriteStream (sendNotification w1 DownloadStartNotification) t)"
  by (simp_all add: createWriteStream_def sendNotification_def)

text \<open>
  The effects of a transfer that starts in \<open>w1\<close>: \<open>DownloadStart\<close>, the opening of the
  write stream, and what the handlers add.
\<close>

lemma transferArtifact_effects:
  "\<exists>es. trace (fst (transferArtifact net w1 dir ver)) =
            trace w1 @ Sent DownloadStartNotification
              # (if tempFilePath_of dir ver \<in> blocked w1 then [] else [Opened (tempFilePath_of dir ver)])
              @ es
          \<and> renamedFirst (tempFilePath_of dir ver) (path_join dir (checkstyleJar ver)) es
          \<and> (Sent finishedStatus \<in> set es \<longrightarrow>
                tempFilePath_of dir ver \<notin> files (fst (transferArtifact net w1 dir ver))
                \<and> path_join dir (checkstyleJar ver) \<in> files (fst (transferArtifact net w1 dir ver)))
          \<and> (tempFilePath_of dir ver \<notin> blocked w1 \<and> OnEnd \<in> set (stream net (downloadLink_of ver))
                \<longrightarrow> Sent finishedStatus \<in> set es)"
proof -
  let ?t = "tempFilePath_of dir ver"
  let ?f = "path_join dir (checkstyleJar ver)"
  let ?l = "downloadLink_of ver"
  let ?w3 = "createWriteStream (sendNotification w1 DownloadStartNotification) ?t"
  let ?w' = "fst (transferArtifact net w1 dir ver)"
  have ne: "?t \<noteq> ?f" by (rule temp_differs)
  have w': "?w' = fst (dispatch ?l ?t ?f (renameLatency w1) (stream net ?l) (?w3, Pending))"
    by (simp only: transferArtifact_run)
  have adv: "advances ?t ?f ?w3 ?w'"
    unfolding w' by (rule advances_dispatch [OF ne])
  then obtain es where es: "trace ?w' = trace ?w3 @ es" "renamedFirst ?t ?f es"
      "Sent finishedStatus \<in> set es \<longrightarrow> ?t \<notin> files ?w' \<and> ?f \<in> files ?w'"
    unfolding advances_def by blast
  have tr: "trace ?w' = trace w1 @ Sent DownloadStartNotification
      # (if ?t \<in> blocked w1 then [] else [Opened ?t]) @ es"
    using es(1) stream_opened(1) [of w1 ?t] by simp
  have live: "Sent finishedStatus \<in> set es"
    if "?t \<notin> blocked w1" "OnEnd \<in> set (stream net ?l)"
  proof -
    from that(1) have there: "?t \<in> files ?w3" by (rule stream_opened(2))
    from that(2) have "[] \<noteq> ([]::nat list) \<or> OnEnd \<in> set (stream net ?l)" by simp
    from finished_sent [OF ne there this, of ?l "renameLatency w1" Pending]
    have "Sent finishedStatus \<in> set (emitted ?w3 ?w')"
      unfolding w' by (simp add: dispatch_def)
    with emitted_append [OF es(1)] show ?thesis by simp
  qed
  from tr es(2,3) live show ?thesis by blast
qed

lemma fulfils_settled: "fulfils (Fulfilled b) p \<Longrightarrow> p = Fulfilled b"
  by (simp add: fulfils_def)

lemma fulfils_unrejected: "fulfils Pending p \<Longrightarrow> p \<noteq> Rejected e"
  by (auto simp: fulfils_def)

text \<open>An error of the stream that comes before its end.\<close>

lemma dispatch_error:
  assumes ne: "t \<noteq> f" and noend: "OnEnd \<notin> set pre"
  shows "snd (dispatch l t f lat (pre @ OnError err # post) (w, Pending)) = Fulfilled False"
    and "\<exists>before after.
           trace (fst (dispatch l t f lat (pre @ OnError err # post) (w, Pending))) =
             trace w @ before
               @ Sent (errorStatus (''Download Checkstyle fail: '' @ errorCause err) l) # after"
proof -
  let ?n = "errorStatus (''Download Checkstyle fail: '' @ errorCause err) l"
  from handleEvents_no_end [OF noend, of l t f lat w Pending] obtain wa pa where
    pre: "handleEvents l t f lat pre (w, Pending, []) = (wa, pa, [])"
    and pa: "pa = Pending \<or> pa = Fulfilled False"
    and adv: "advances t f w wa"
    by blast
  let ?wb = "sendNotification wa ?n"
  have settled: "resolve False pa = Fulfilled False"
    using pa by (auto simp: resolve_def)
  have step: "handleEvents l t f lat (pre @ OnError err # post) (w, Pending, []) =
      handleEvents l t f lat post (?wb, Fulfilled False, [])"
    by (simp add: handleEvents_append pre settleDue_idle settled)
  have run: "dispatch l t f lat (pre @ OnError err # post) (w, Pending) =
      flush t f (handleEvents l t f lat post (?wb, Fulfilled False, []))"
    by (simp add: dispatch_def step)
  from fulfils_run [of "Fulfilled False" t f l lat post ?wb "[]"]
  show "snd (dispatch l t f lat (pre @ OnError err # post) (w, Pending)) = Fulfilled False"
    unfolding run by (rule fulfils_settled)
  from adv obtain es1 where es1: "trace wa = trace w @ es1"
    unfolding advances_def by blast
  from advances_run [OF ne, of ?wb l lat post "Fulfilled False" "[]"] obtain es2 where
    es2: "trace (fst (flush t f (handleEvents l t f lat post (?wb, Fulfilled False, [])))) =
            trace ?wb @ es2"
    unfolding advances_def by blast
  have "trace (fst (dispatch l t f lat (pre @ OnError err # post) (w, Pending))) =
      trace w @ es1 @ Sent ?n # es2"
    unfolding run es2 by (simp add: sendNotification_def es1)
  then show "\<exists>before after.
      trace (fst (dispatch l t f lat (pre @ OnError err # post) (w, Pending))) =
        trace w @ before @ Sent ?n # after"
    by blast
qed

subsection \<open>The model at concrete inputs\<close>

lemma progressPercent_half: "progressPercent (1 / 2) = Some 50"
  by code_simp

text \<open>
  The product is rounded to a double before \<^verbatim>\<open>Math.round\<close> sees it: for the double next
  to 0.075 the product is the double 7.5 and the percent is 8, while the integer nearest
  to the exact product is 7.
\<close>

lemma progressPercent_double_product:
  "progressPercent (5404319552844595 / 72057594037927936) = Some 8
   \<and> Math_round (5404319552844595 / 72057594037927936 * 100) = 7"
  by code_simp

lemmas run_simps =
  downloadCheckstyle_def requestForVersion_def Let_def emitted_def pathExists_def
  clearTempFile_def remove_path_def transferArtifact_def dispatch_def flush_def settleDue_def
  renameSettled_def sendNotification_def createWriteStream_def rename_def tempFilePath_of_def
  path_join_def checkstyleJar_def errorCause_def resolve_def progressPercent_half



text \<open>
  An error that arrives after the end of the stream and before the rename has completed
  is handled first: the \<open>error\<close> status goes out before the \<open>finished\<close> status and the
  promise is fulfilled with false. On a blocked path no file appears, the rename is
  rejected, no \<open>finished\<close> status is sent and the promise stays pending.
\<close>

lemma end_then_error:
  "downloadCheckstyle
     \<lparr>probe = (\<lambda>u. (None, Some \<lparr>statusCode = 302\<rparr>)),
      stream = (\<lambda>u. [OnEnd, OnError \<lparr>code = Some ''ECONNRESET'', message = None,
                                      toString = ''Error''\<rparr>])\<rparr>
     \<lparr>files = {}, locked = Map.empty, blocked = {}, renameLatency = 1, trace = []\<rparr>
     ''/res'' ''8.0'' ''file:///A.java''
   = (\<lparr>files = {''/res/checkstyle-8.0-all.jar''}, locked = Map.empty, blocked = {},
       renameLatency = 1,
       trace = [Sent DownloadStartNotification,
                Opened ''/res/checkstyle-8.0-all.jar.download'',
                Sent (errorStatus ''Download Checkstyle fail: ECONNRESET'' (downloadLink_of ''8.0'')),
                Renamed ''/res/checkstyle-8.0-all.jar.download'' ''/res/checkstyle-8.0-all.jar'',
                Sent finishedStatus]\<rparr>,
      Fulfilled False)"
  by (simp add: run_simps)

lemma blocked_directory:
  "downloadCheckstyle
     \<lparr>probe = (\<lambda>u. (None, Some \<lparr>statusCode = 302\<rparr>)), stream = (\<lambda>u. [OnEnd])\<rparr>
     \<lparr>files = {}, locked = Map.empty, blocked = {''/nodir/checkstyle-8.0-all.jar.download''},
      renameLatency = 0, trace = []\<rparr>
     ''/nodir'' ''8.0'' ''file:///A.java''
   = (\<lparr>files = {}, locked = Map.empty, blocked = {''/nodir/checkstyle-8.0-all.jar.download''},
       renameLatency = 0, trace = [Sent DownloadStartNotification]\<rparr>,
      Pending)"
  by (simp add: run_simps)

subsection \<open>The probe\<close>

text \<open>
  C1. The probe has exactly one of three results. It is \<open>Found\<close> exactly when a
  response arrived without an error and its status code is 302, \<open>Others\<close> exactly when
  a response arrived without an error and its status code is anything else, and \<open>Error\<close>
  exactly when no response arrived or an error was reported. The three conditions cover
  every outcome and no two of them hold together.
\<close>

theorem requestForVersion_classification:
  "((requestForVersion net url = Found) =
      (\<exists>r. probe net url = (None, Some r) \<and> statusCode r = 302))
   \<and> ((requestForVersion net url = Others) =
      (\<exists>r. probe net url = (None, Some r) \<and> statusCode r \<noteq> 302))
   \<and> ((requestForVersion net url = Error) =
      (snd (probe net url) = None \<or> (\<exists>e. fst (probe net url) = Some e)))"
  by (cases "probe net url") (auto simp: requestForVersion_def split: option.splits)

theorem requestForVersion_classification_witness:
  "requestForVersion \<lparr>probe = (\<lambda>u. (None, Some \<lparr>statusCode = 302\<rparr>)), stream = (\<lambda>u. [])\<rparr> ''u'' = Found
   \<and> requestForVersion \<lparr>probe = (\<lambda>u. (None, Some \<lparr>statusCode = 200\<rparr>)), stream = (\<lambda>u. [])\<rparr> ''u'' = Others
   \<and> requestForVersion \<lparr>probe = (\<lambda>u. (None, None)), stream = (\<lambda>u. [])\<rparr> ''u'' = Error"
  using requestForVersion_classification
          [of "\<lparr>probe = (\<lambda>u. (None, Some \<lparr>statusCode = 302\<rparr>)), stream = (\<lambda>u. [])\<rparr>" "''u''"]
        requestForVersion_classification
          [of "\<lparr>probe = (\<lambda>u. (None, Some \<lparr>statusCode = 200\<rparr>)), stream = (\<lambda>u. [])\<rparr>" "''u''"]
        requestForVersion_classification
          [of "\<lparr>probe = (\<lambda>u. (None, None)), stream = (\<lambda>u. [])\<rparr>" "''u''"]
  by simp

text \<open>
  C2. When the probe does not return \<open>Found\<close>, the promise is fulfilled with false and
  the call has exactly one effect, a notification that is not \<open>DownloadStart\<close>: the
  \<open>VersionInvalid\<close> notification carrying the uri of the requesting document when the
  probe returned \<open>Others\<close>, and the error message asking to try again later when it
  returned \<open>Error\<close>.
\<close>

theorem downloadCheckstyle_not_found:
  assumes "requestForVersion net (downloadLink_of ver) \<noteq> Found"
  shows "snd (downloadCheckstyle net w dir ver uri) = Fulfilled False
    \<and> (\<exists>n. fst (downloadCheckstyle net w dir ver uri) = w\<lparr>trace := trace w @ [Sent n]\<rparr>
          \<and> n \<noteq> DownloadStartNotification
          \<and> (requestForVersion net (downloadLink_of ver) = Others
               \<longrightarrow> n = VersionInvalidNotification uri)
          \<and> (requestForVersion net (downloadLink_of ver) = Error
               \<longrightarrow> n = ShowMessageNotification MessageType_Error
                        ''Failed to download CheckStyle, please try again later.''))"
  using assms
  by (cases "requestForVersion net (downloadLink_of ver)")
     (simp_all add: downloadCheckstyle_def sendNotification_def Let_def)

theorem downloadCheckstyle_not_found_witness:
  "requestForVersion
     \<lparr>probe = (\<lambda>u. (None, Some \<lparr>statusCode = 200\<rparr>)), stream = (\<lambda>u. [])\<rparr>
     (downloadLink_of ''999.0'') \<noteq> Found
   \<and> downloadCheckstyle
       \<lparr>probe = (\<lambda>u. (None, Some \<lparr>statusCode = 200\<rparr>)), stream = (\<lambda>u. [])\<rparr>
       \<lparr>files = {}, locked = Map.empty, blocked = {}, renameLatency = 0, trace = []\<rparr>
       ''/res'' ''999.0'' ''file:///A.java''
     = (\<lparr>files = {}, locked = Map.empty, blocked = {}, renameLatency = 0,
         trace = [Sent (VersionInvalidNotification ''file:///A.java'')]\<rparr>,
        Fulfilled False)"
proof -
  let ?net = "\<lparr>probe = (\<lambda>u. (None, Some \<lparr>statusCode = 200\<rparr>)), stream = (\<lambda>u. [])\<rparr>"
  let ?w = "\<lparr>files = {}, locked = Map.empty, blocked = {}, renameLatency = 0, trace = []\<rparr>"
  have others: "requestForVersion ?net (downloadLink_of ''999.0'') = Others"
    by (simp add: requestForVersion_def)
  then have h: "requestForVersion ?net (downloadLink_of ''999.0'') \<noteq> Found"
    by simp
  from downloadCheckstyle_not_found [OF h, of ?w "''/res''" "''file:///A.java''"] others
  have "snd (downloadCheckstyle ?net ?w ''/res'' ''999.0'' ''file:///A.java'') = Fulfilled False"
    and "fst (downloadCheckstyle ?net ?w ''/res'' ''999.0'' ''file:///A.java'')
           = \<lparr>files = {}, locked = Map.empty, blocked = {}, renameLatency = 0,
               trace = [Sent (VersionInvalidNotification ''file:///A.java'')]\<rparr>"
    by auto
  with h show ?thesis by (simp add: prod_eq_iff)
qed

subsection \<open>The temporary file\<close>

text \<open>
  C3. When the probe returns \<open>Found\<close>:
  \<^item> when the removal of the temporary file fails, the call ends there, rejected, and
    nothing is streamed;
  \<^item> otherwise the transfer starts in a world in which the temporary path holds no
    file, the only effect before it being the removal of the file that was there, and
    its first effect is \<open>DownloadStart\<close>;
  \<^item> every \<open>finished\<close> status comes directly after the rename of the temporary file
    to the final path;
  \<^item> when a \<open>finished\<close> status was sent, at the end the temporary path holds no file
    and the final path holds one;
  \<^item> when the stream ends, the temporary file could be removed and the write stream
    could create its file, the rename is made and the \<open>finished\<close> status is sent.
\<close>

theorem temp_file_promoted:
  assumes found: "requestForVersion net (downloadLink_of ver) = Found"
  shows "(\<forall>e. clearTempFile w (tempFilePath_of dir ver) = Inl e \<longrightarrow>
            downloadCheckstyle net w dir ver uri = (w, Rejected e))
    \<and> (\<forall>cleared. clearTempFile w (tempFilePath_of dir ver) = Inr cleared \<longrightarrow>
            tempFilePath_of dir ver \<notin> files cleared
            \<and> emitted w cleared =
                (if tempFilePath_of dir ver \<in> files w then [Removed (tempFilePath_of dir ver)] else [])
            \<and> downloadCheckstyle net w dir ver uri = transferArtifact net cleared dir ver
            \<and> (\<exists>rest. emitted cleared (fst (transferArtifact net cleared dir ver)) =
                  Sent DownloadStartNotification # rest))
    \<and> (\<forall>pre post. emitted w (fst (downloadCheckstyle net w dir ver uri)) = pre @ Sent finishedStatus # post
          \<longrightarrow> (\<exists>pre'. pre = pre' @ [Renamed (tempFilePath_of dir ver) (path_join dir (checkstyleJar ver))]))
    \<and> (Sent finishedStatus \<in> set (emitted w (fst (downloadCheckstyle net w dir ver uri)))
          \<longrightarrow> tempFilePath_of dir ver \<notin> files (fst (downloadCheckstyle net w dir ver uri))
              \<and> path_join dir (checkstyleJar ver) \<in> files (fst (downloadCheckstyle net w dir ver uri)))
    \<and> ((tempFilePath_of dir ver \<in> files w \<longrightarrow> locked w (tempFilePath_of dir ver) = None)
          \<and> tempFilePath_of dir ver \<notin> blocked w
          \<and> OnEnd \<in> set (stream net (downloadLink_of ver))
          \<longrightarrow> Sent finishedStatus \<in> set (emitted w (fst (downloadCheckstyle net w dir ver uri))))"
proof -
  let ?t = "tempFilePath_of dir ver"
  let ?f = "path_join dir (checkstyleJar ver)"
  let ?l = "downloadLink_of ver"
  let ?dl = "downloadCheckstyle net w dir ver uri"
  show ?thesis
  proof (cases "clearTempFile w ?t")
    case (Inl e)
    have run: "?dl = (w, Rejected e)"
      using found Inl by (simp add: downloadCheckstyle_def Let_def)
    have locked: "?t \<in> files w \<and> locked w ?t \<noteq> None"
      using Inl by (cases rule: clearTempFile_cases [of ?t w]) auto
    have "emitted w w = []" by (simp add: emitted_def)
    with run Inl locked show ?thesis by simp
  next
    case (Inr w1)
    let ?w' = "fst (transferArtifact net w1 dir ver)"
    note c = clearTempFile_cleared [OF Inr]
    have run: "?dl = transferArtifact net w1 dir ver"
      using found Inr by (simp add: downloadCheckstyle_def Let_def)
    from transferArtifact_effects [of net w1 dir ver] obtain es where
      tr: "trace ?w' = trace w1 @ Sent DownloadStartNotification
             # (if ?t \<in> blocked w1 then [] else [Opened ?t]) @ es"
      and rf: "renamedFirst ?t ?f es"
      and fs: "Sent finishedStatus \<in> set es \<longrightarrow> ?t \<notin> files ?w' \<and> ?f \<in> files ?w'"
      and live: "?t \<notin> blocked w1 \<and> OnEnd \<in> set (stream net ?l) \<longrightarrow> Sent finishedStatus \<in> set es"
      by blast
    let ?head = "(if ?t \<in> files w then [Removed ?t] else [])
        @ Sent DownloadStartNotification # (if ?t \<in> blocked w1 then [] else [Opened ?t])"
    have em: "emitted w1 ?w' =
        Sent DownloadStartNotification # (if ?t \<in> blocked w1 then [] else [Opened ?t]) @ es"
      by (rule emitted_append) (rule tr)
    have cleared: "emitted w w1 = (if ?t \<in> files w then [Removed ?t] else [])"
      by (rule emitted_append) (rule c(4))
    have "trace ?w' = trace w @ (?head @ es)"
      using c(4) tr by simp
    then have all: "emitted w ?w' = ?head @ es"
      by (rule emitted_append)
    have nofin: "Sent finishedStatus \<notin> set ?head" by simp
    have rf': "renamedFirst ?t ?f (?head @ es)"
      by (rule renamedFirst_append [OF renamedFirst_absent [OF nofin] rf])
    have p2: "?t \<notin> files w1 \<and> emitted w w1 = (if ?t \<in> files w then [Removed ?t] else [])
        \<and> ?dl = transferArtifact net w1 dir ver
        \<and> (\<exists>rest. emitted w1 ?w' = Sent DownloadStartNotification # rest)"
      using c(1) cleared run em by blast
    have p3: "\<forall>pre post. emitted w (fst ?dl) = pre @ Sent finishedStatus # post
          \<longrightarrow> (\<exists>pre'. pre = pre' @ [Renamed ?t ?f])"
      using rf' unfolding run all renamedFirst_def by blast
    have p4: "Sent finishedStatus \<in> set (emitted w (fst ?dl))
          \<longrightarrow> ?t \<notin> files (fst ?dl) \<and> ?f \<in> files (fst ?dl)"
      unfolding run all using fs nofin by auto
    have p5: "?t \<notin> blocked w \<and> OnEnd \<in> set (stream net ?l)
          \<longrightarrow> Sent finishedStatus \<in> set (emitted w (fst ?dl))"
      unfolding run all using live c(2) by auto
    from Inr p2 p3 p4 p5 show ?thesis by simp
  qed
qed

theorem temp_file_promoted_witness:
  "requestForVersion
     \<lparr>probe = (\<lambda>u. (None, Some \<lparr>statusCode = 302\<rparr>)), stream = (\<lambda>u. [OnProgress (1 / 2), OnEnd])\<rparr>
     (downloadLink_of ''8.0'') = Found
   \<and> clearTempFile
       \<lparr>files = {''/res/checkstyle-8.0-all.jar.download''}, locked = Map.empty, blocked = {},
        renameLatency = 1, trace = []\<rparr>
       (tempFilePath_of ''/res'' ''8.0'')
     = Inr \<lparr>files = {}, locked = Map.empty, blocked = {}, renameLatency = 1,
            trace = [Removed ''/res/checkstyle-8.0-all.jar.download'']\<rparr>
   \<and> tempFilePath_of ''/res'' ''8.0'' \<notin> blocked
       \<lparr>files = {''/res/checkstyle-8.0-all.jar.download''}, locked = Map.empty, blocked = {},
        renameLatency = 1, trace = []\<rparr>
   \<and> OnEnd \<in> set (stream
       \<lparr>probe = (\<lambda>u. (None, Some \<lparr>statusCode = 302\<rparr>)), stream = (\<lambda>u. [OnProgress (1 / 2), OnEnd])\<rparr>
       (downloadLink_of ''8.0''))
   \<and> emitted
       \<lparr>files = {''/res/checkstyle-8.0-all.jar.download''}, locked = Map.empty, blocked = {},
        renameLatency = 1, trace = []\<rparr>
       (fst (downloadCheckstyle
          \<lparr>probe = (\<lambda>u. (None, Some \<lparr>statusCode = 302\<rparr>)),
           stream = (\<lambda>u. [OnProgress (1 / 2), OnEnd])\<rparr>
          \<lparr>files = {''/res/checkstyle-8.0-all.jar.download''}, locked = Map.empty, blocked = {},
           renameLatency = 1, trace = []\<rparr>
          ''/res'' ''8.0'' ''file:///A.java''))
     = [Removed ''/res/checkstyle-8.0-all.jar.download'',
        Sent DownloadStartNotification,
        Opened ''/res/checkstyle-8.0-all.jar.download'',
        Sent (downloadingStatus 50),
        Renamed ''/res/checkstyle-8.0-all.jar.download'' ''/res/checkstyle-8.0-all.jar'',
        Sent finishedStatus]
   \<and> ''/res/checkstyle-8.0-all.jar.download''
       \<notin> files (fst (downloadCheckstyle
          \<lparr>probe = (\<lambda>u. (None, Some \<lparr>statusCode = 302\<rparr>)),
           stream = (\<lambda>u. [OnProgress (1 / 2), OnEnd])\<rparr>
          \<lparr>files = {''/res/checkstyle-8.0-all.jar.download''}, locked = Map.empty, blocked = {},
           renameLatency = 1, trace = []\<rparr>
          ''/res'' ''8.0'' ''file:///A.java''))
   \<and> ''/res/checkstyle-8.0-all.jar''
       \<in> files (fst (downloadCheckstyle
          \<lparr>probe = (\<lambda>u. (None, Some \<lparr>statusCode = 302\<rparr>)),
           stream = (\<lambda>u. [OnProgress (1 / 2), OnEnd])\<rparr>
          \<lparr>files = {''/res/checkstyle-8.0-all.jar.download''}, locked = Map.empty, blocked = {},
           renameLatency = 1, trace = []\<rparr>
          ''/res'' ''8.0'' ''file:///A.java''))"
proof -
  let ?net = "\<lparr>probe = (\<lambda>u. (None, Some \<lparr>statusCode = 302\<rparr>)),
               stream = (\<lambda>u. [OnProgress (1 / 2), OnEnd])\<rparr>"
  let ?w = "\<lparr>files = {''/res/checkstyle-8.0-all.jar.download''}, locked = Map.empty, blocked = {},
             renameLatency = 1, trace = []\<rparr>"
  let ?w' = "fst (downloadCheckstyle ?net ?w ''/res'' ''8.0'' ''file:///A.java'')"
  have h: "requestForVersion ?net (downloadLink_of ''8.0'') = Found"
    by (simp add: requestForVersion_def)
  have t: "tempFilePath_of ''/res'' ''8.0'' = ''/res/checkstyle-8.0-all.jar.download''"
    and f: "path_join ''/res'' (checkstyleJar ''8.0'') = ''/res/checkstyle-8.0-all.jar''"
    by (simp_all add: tempFilePath_of_def path_join_def checkstyleJar_def)
  have c: "clearTempFile ?w (tempFilePath_of ''/res'' ''8.0'')
      = Inr \<lparr>files = {}, locked = Map.empty, blocked = {}, renameLatency = 1,
             trace = [Removed ''/res/checkstyle-8.0-all.jar.download'']\<rparr>"
    by (simp add: t clearTempFile_def pathExists_def remove_path_def)
  have b: "tempFilePath_of ''/res'' ''8.0'' \<notin> blocked ?w"
    by simp
  have e: "OnEnd \<in> set (stream ?net (downloadLink_of ''8.0''))"
    by simp
  have run: "emitted ?w ?w' =
      [Removed ''/res/checkstyle-8.0-all.jar.download'',
       Sent DownloadStartNotification,
       Opened ''/res/checkstyle-8.0-all.jar.download'',
       Sent (downloadingStatus 50),
       Renamed ''/res/checkstyle-8.0-all.jar.download'' ''/res/checkstyle-8.0-all.jar'',
       Sent finishedStatus]"
    by (simp add: run_simps)
  from temp_file_promoted [OF h, of ?w "''/res''" "''file:///A.java''"] b e
  have "Sent finishedStatus \<in> set (emitted ?w ?w')"
    by (simp add: t)
  with temp_file_promoted [OF h, of ?w "''/res''" "''file:///A.java''"]
  have "tempFilePath_of ''/res'' ''8.0'' \<notin> files ?w'
      \<and> path_join ''/res'' (checkstyleJar ''8.0'') \<in> files ?w'"
    by blast
  then have "''/res/checkstyle-8.0-all.jar.download'' \<notin> files ?w'"
    and "''/res/checkstyle-8.0-all.jar'' \<in> files ?w'"
    by (simp_all add: t f)
  with h c b e run show ?thesis by blast
qed

subsection \<open>Stream errors\<close>

text \<open>
  C4. When the transfer is reached and the stream raises an error before it has ended,
  the promise is fulfilled with false and, after \<open>DownloadStart\<close> and the statuses of
  the events before it, an \<open>error\<close> status is sent that carries the download link and
  a \<open>DownloadCheckstyleError\<close>; its message ends with the code of the error when the
  error has a non-empty one, and with the string form of the error otherwise.
\<close>

theorem stream_error_reported:
  assumes found: "requestForVersion net (downloadLink_of ver) = Found"
    and str: "stream net (downloadLink_of ver) = pre @ OnError err # post"
    and noend: "OnEnd \<notin> set pre"
    and clear: "tempFilePath_of dir ver \<in> files w \<longrightarrow> locked w (tempFilePath_of dir ver) = None"
  shows "snd (downloadCheckstyle net w dir ver uri) = Fulfilled False
    \<and> (\<exists>before after.
          sent (emitted w (fst (downloadCheckstyle net w dir ver uri))) =
            DownloadStartNotification # before
              @ errorStatus (''Download Checkstyle fail: '' @ errorCause err) (downloadLink_of ver) # after)
    \<and> (\<forall>c. code err = Some c \<and> c \<noteq> [] \<longrightarrow> errorCause err = c)
    \<and> (code err = None \<or> code err = Some [] \<longrightarrow> errorCause err = toString err)"
proof -
  let ?t = "tempFilePath_of dir ver"
  let ?f = "path_join dir (checkstyleJar ver)"
  let ?l = "downloadLink_of ver"
  let ?n = "errorStatus (''Download Checkstyle fail: '' @ errorCause err) ?l"
  from clear obtain w1 where w1: "clearTempFile w ?t = Inr w1"
    by (cases rule: clearTempFile_cases [of ?t w]) auto
  note c = clearTempFile_cleared [OF w1]
  let ?w3 = "createWriteStream (sendNotification w1 DownloadStartNotification) ?t"
  let ?res = "dispatch ?l ?t ?f (renameLatency w1) (pre @ OnError err # post) (?w3, Pending)"
  have run: "downloadCheckstyle net w dir ver uri = ?res"
    using found w1 by (simp add: downloadCheckstyle_def Let_def transferArtifact_run str)
  note d = dispatch_error [OF temp_differs [of dir ver] noend, of ?l "renameLatency w1" err post ?w3]
  from d(2) obtain before after where "trace (fst ?res) = trace ?w3 @ before @ Sent ?n # after"
    by blast
  then have "trace (fst ?res) = trace w @
      ((if ?t \<in> files w then [Removed ?t] else [])
        @ Sent DownloadStartNotification # (if ?t \<in> blocked w1 then [] else [Opened ?t])
        @ before @ Sent ?n # after)"
    using stream_opened(1) [of w1 ?t] c(4) by simp
  then have "emitted w (fst ?res) =
      (if ?t \<in> files w then [Removed ?t] else [])
        @ Sent DownloadStartNotification # (if ?t \<in> blocked w1 then [] else [Opened ?t])
        @ before @ Sent ?n # after"
    by (rule emitted_append)
  then have "sent (emitted w (fst ?res)) =
      DownloadStartNotification # (sent (if ?t \<in> blocked w1 then [] else [Opened ?t]) @ sent before)
        @ ?n # sent after"
    by (simp add: sent_append)
  then have sequence: "\<exists>before after. sent (emitted w (fst ?res)) = DownloadStartNotification # before @ ?n # after"
    by blast
  have cause: "(\<forall>c. code err = Some c \<and> c \<noteq> [] \<longrightarrow> errorCause err = c)
      \<and> (code err = None \<or> code err = Some [] \<longrightarrow> errorCause err = toString err)"
    by (auto simp: errorCause_def)
  show ?thesis
    unfolding run using d(1) sequence cause by blast
qed

theorem stream_error_reported_witness:
  "requestForVersion
     \<lparr>probe = (\<lambda>u. (None, Some \<lparr>statusCode = 302\<rparr>)),
       stream = (\<lambda>u. [OnProgress (1 / 2)]
                      @ OnError \<lparr>code = Some ''ECONNRESET'', message = Some ''socket hang up'',
                                 toString = ''Error: socket hang up''\<rparr> # [])\<rparr>
     (downloadLink_of ''8.0'') = Found
   \<and> stream
       \<lparr>probe = (\<lambda>u. (None, Some \<lparr>statusCode = 302\<rparr>)),
       stream = (\<lambda>u. [OnProgress (1 / 2)]
                      @ OnError \<lparr>code = Some ''ECONNRESET'', message = Some ''socket hang up'',
                                 toString = ''Error: socket hang up''\<rparr> # [])\<rparr>
       (downloadLink_of ''8.0'')
     = [OnProgress (1 / 2)] @ OnError \<lparr>code = Some ''ECONNRESET'', message = Some ''socket hang up'',
                       toString = ''Error: socket hang up''\<rparr> # []
   \<and> OnEnd \<notin> set [OnProgress (1 / 2)]
   \<and> tempFilePath_of ''/res'' ''8.0''
       \<notin> files \<lparr>files = {}, locked = Map.empty, blocked = {}, renameLatency = 0, trace = []\<rparr>
   \<and> snd (downloadCheckstyle
       \<lparr>probe = (\<lambda>u. (None, Some \<lparr>statusCode = 302\<rparr>)),
       stream = (\<lambda>u. [OnProgress (1 / 2)]
                      @ OnError \<lparr>code = Some ''ECONNRESET'', message = Some ''socket hang up'',
                                 toString = ''Error: socket hang up''\<rparr> # [])\<rparr>
       \<lparr>files = {}, locked = Map.empty, blocked = {}, renameLatency = 0, trace = []\<rparr>
       ''/res'' ''8.0'' ''file:///A.java'') = Fulfilled False
   \<and> errorCause \<lparr>code = Some ''ECONNRESET'', message = Some ''socket hang up'',
                       toString = ''Error: socket hang up''\<rparr> = ''ECONNRESET''"
proof -
  let ?e = "\<lparr>code = Some ''ECONNRESET'', message = Some ''socket hang up'',
                       toString = ''Error: socket hang up''\<rparr>"
  let ?net = "\<lparr>probe = (\<lambda>u. (None, Some \<lparr>statusCode = 302\<rparr>)),
       stream = (\<lambda>u. [OnProgress (1 / 2)]
                      @ OnError \<lparr>code = Some ''ECONNRESET'', message = Some ''socket hang up'',
                                 toString = ''Error: socket hang up''\<rparr> # [])\<rparr>"
  let ?w = "\<lparr>files = {}, locked = Map.empty, blocked = {}, renameLatency = 0, trace = []\<rparr>"
  have h: "requestForVersion ?net (downloadLink_of ''8.0'') = Found"
    by (simp add: requestForVersion_def)
  have s: "stream ?net (downloadLink_of ''8.0'') = [OnProgress (1 / 2)] @ OnError ?e # []"
    by simp
  have n: "OnEnd \<notin> set [OnProgress (1 / 2)]"
    by simp
  have a: "tempFilePath_of ''/res'' ''8.0'' \<notin> files ?w"
    by simp
  then have c: "tempFilePath_of ''/res'' ''8.0'' \<in> files ?w
      \<longrightarrow> locked ?w (tempFilePath_of ''/res'' ''8.0'') = None"
    by simp
  from stream_error_reported [OF h s n c, of "''file:///A.java''"]
  have "snd (downloadCheckstyle ?net ?w ''/res'' ''8.0'' ''file:///A.java'') = Fulfilled False"
    and "errorCause ?e = ''ECONNRESET''"
    by simp_all
  with h s n a show ?thesis by blast
qed

subsection \<open>The notification sequence of a download\<close>

text \<open>
  C5. The claim asks for exactly one terminal status. The code does not give it: when
  the stream raises an error and then ends, the error handler sends the \<open>error\<close> status
  and fulfils the promise with false, and the end handler still renames the temporary
  file, holding a part of the artifact, to the final path and sends \<open>finished\<close>.
\<close>

theorem download_sequence_two_terminals:
  "sent (emitted \<lparr>files = {}, locked = Map.empty, blocked = {}, renameLatency = 0, trace = []\<rparr>
       (fst (downloadCheckstyle
          \<lparr>probe = (\<lambda>u. (None, Some \<lparr>statusCode = 302\<rparr>)),
           stream = (\<lambda>u. [OnProgress (1 / 2),
                            OnError \<lparr>code = Some ''ESOCKETTIMEDOUT'', message = Some ''ESOCKETTIMEDOUT'',
                                     toString = ''Error: ESOCKETTIMEDOUT''\<rparr>,
                            OnEnd])\<rparr>
          \<lparr>files = {}, locked = Map.empty, blocked = {}, renameLatency = 0, trace = []\<rparr>
          ''/res'' ''8.0'' ''file:///A.java'')))
     = [DownloadStartNotification,
        downloadingStatus 50,
        errorStatus ''Download Checkstyle fail: ESOCKETTIMEDOUT'' (downloadLink_of ''8.0''),
        finishedStatus]
   \<and> \<not> taskSequence
         [DownloadStartNotification,
          downloadingStatus 50,
          errorStatus ''Download Checkstyle fail: ESOCKETTIMEDOUT'' (downloadLink_of ''8.0''),
          finishedStatus]
   \<and> snd (downloadCheckstyle
          \<lparr>probe = (\<lambda>u. (None, Some \<lparr>statusCode = 302\<rparr>)),
           stream = (\<lambda>u. [OnProgress (1 / 2),
                            OnError \<lparr>code = Some ''ESOCKETTIMEDOUT'', message = Some ''ESOCKETTIMEDOUT'',
                                     toString = ''Error: ESOCKETTIMEDOUT''\<rparr>,
                            OnEnd])\<rparr>
          \<lparr>files = {}, locked = Map.empty, blocked = {}, renameLatency = 0, trace = []\<rparr>
          ''/res'' ''8.0'' ''file:///A.java'') = Fulfilled False
   \<and> files (fst (downloadCheckstyle
          \<lparr>probe = (\<lambda>u. (None, Some \<lparr>statusCode = 302\<rparr>)),
           stream = (\<lambda>u. [OnProgress (1 / 2),
                            OnError \<lparr>code = Some ''ESOCKETTIMEDOUT'', message = Some ''ESOCKETTIMEDOUT'',
                                     toString = ''Error: ESOCKETTIMEDOUT''\<rparr>,
                            OnEnd])\<rparr>
          \<lparr>files = {}, locked = Map.empty, blocked = {}, renameLatency = 0, trace = []\<rparr>
          ''/res'' ''8.0'' ''file:///A.java'')) = {''/res/checkstyle-8.0-all.jar''}"
proof -
  let ?w = "\<lparr>files = {}, locked = Map.empty, blocked = {}, renameLatency = 0, trace = []\<rparr>"
  let ?net = "\<lparr>probe = (\<lambda>u. (None, Some \<lparr>statusCode = 302\<rparr>)),
           stream = (\<lambda>u. [OnProgress (1 / 2),
                            OnError \<lparr>code = Some ''ESOCKETTIMEDOUT'', message = Some ''ESOCKETTIMEDOUT'',
                                     toString = ''Error: ESOCKETTIMEDOUT''\<rparr>,
                            OnEnd])\<rparr>"
  have run: "downloadCheckstyle ?net ?w ''/res'' ''8.0'' ''file:///A.java'' =
      (\<lparr>files = {''/res/checkstyle-8.0-all.jar''}, locked = Map.empty, blocked = {},
        renameLatency = 0,
        trace = [Sent DownloadStartNotification,
                 Opened ''/res/checkstyle-8.0-all.jar.download'',
                 Sent (downloadingStatus 50),
                 Sent (errorStatus ''Download Checkstyle fail: ESOCKETTIMEDOUT'' (downloadLink_of ''8.0'')),
                 Renamed ''/res/checkstyle-8.0-all.jar.download'' ''/res/checkstyle-8.0-all.jar'',
                 Sent finishedStatus]\<rparr>,
       Fulfilled False)"
    by (simp add: run_simps)
  show ?thesis
    unfolding run by (simp add: emitted_def taskSequence_def)
qed

subsection \<open>The returned promise\<close>

text \<open>
  C10, as amended. The promise of \<open>downloadCheckstyle\<close> is rejected exactly when the
  probe found the version and the removal of the temporary file that is there fails,
  and then with the error of that removal. It is fulfilled with false when the probe
  returns \<open>Error\<close>, when it returns \<open>Others\<close>, and when the transfer is reached and the
  stream raises an error before it has ended.
\<close>

theorem downloadCheckstyle_settlement:
  "(\<forall>e. (snd (downloadCheckstyle net w dir ver uri) = Rejected e) =
          (requestForVersion net (downloadLink_of ver) = Found
           \<and> tempFilePath_of dir ver \<in> files w
           \<and> locked w (tempFilePath_of dir ver) = Some e))
   \<and> (requestForVersion net (downloadLink_of ver) = Error
        \<longrightarrow> snd (downloadCheckstyle net w dir ver uri) = Fulfilled False)
   \<and> (requestForVersion net (downloadLink_of ver) = Others
        \<longrightarrow> snd (downloadCheckstyle net w dir ver uri) = Fulfilled False)
   \<and> (requestForVersion net (downloadLink_of ver) = Found
        \<and> (tempFilePath_of dir ver \<in> files w \<longrightarrow> locked w (tempFilePath_of dir ver) = None)
        \<and> (\<exists>pre err post. stream net (downloadLink_of ver) = pre @ OnError err # post
                           \<and> OnEnd \<notin> set pre)
        \<longrightarrow> snd (downloadCheckstyle net w dir ver uri) = Fulfilled False)"
proof (cases "requestForVersion net (downloadLink_of ver)")
  case Found
  let ?t = "tempFilePath_of dir ver"
  let ?l = "downloadLink_of ver"
  show ?thesis
  proof (cases rule: clearTempFile_cases [of ?t w])
    case (failed e)
    then have "downloadCheckstyle net w dir ver uri = (w, Rejected e)"
      using Found by (simp add: downloadCheckstyle_def Let_def)
    with Found failed show ?thesis by auto
  next
    case removed
    let ?w1 = "w\<lparr>files := files w - {?t}, trace := trace w @ [Removed ?t]\<rparr>"
    have run: "downloadCheckstyle net w dir ver uri = transferArtifact net ?w1 dir ver"
      using Found removed by (simp add: downloadCheckstyle_def Let_def)
    have never: "snd (transferArtifact net ?w1 dir ver) \<noteq> Rejected e" for e
      unfolding transferArtifact_run by (rule fulfils_unrejected) (rule fulfils_dispatch)
    have "snd (transferArtifact net ?w1 dir ver) = Fulfilled False"
      if "stream net ?l = pre @ OnError err # post" "OnEnd \<notin> set pre" for pre err post
      unfolding transferArtifact_run that(1)
      by (rule dispatch_error(1) [OF temp_differs that(2)])
    with never run Found removed show ?thesis by auto
  next
    case absent
    have run: "downloadCheckstyle net w dir ver uri = transferArtifact net w dir ver"
      using Found absent by (simp add: downloadCheckstyle_def Let_def)
    have never: "snd (transferArtifact net w dir ver) \<noteq> Rejected e" for e
      unfolding transferArtifact_run by (rule fulfils_unrejected) (rule fulfils_dispatch)
    have "snd (transferArtifact net w dir ver) = Fulfilled False"
      if "stream net ?l = pre @ OnError err # post" "OnEnd \<notin> set pre" for pre err post
      unfolding transferArtifact_run that(1)
      by (rule dispatch_error(1) [OF temp_differs that(2)])
    with never run Found absent show ?thesis by auto
  qed
next
  case Others
  then show ?thesis by (simp add: downloadCheckstyle_def Let_def)
next
  case Error
  then show ?thesis by (simp add: downloadCheckstyle_def Let_def)
qed

theorem downloadCheckstyle_settlement_witness:
  "requestForVersion \<lparr>probe = (\<lambda>u. (None, None)), stream = (\<lambda>u. [])\<rparr> (downloadLink_of ''8.0'') = Error
   \<and> snd (downloadCheckstyle \<lparr>probe = (\<lambda>u. (None, None)), stream = (\<lambda>u. [])\<rparr>
            \<lparr>files = {}, locked = Map.empty, blocked = {}, renameLatency = 0, trace = []\<rparr>
            ''/res'' ''8.0'' ''file:///A.java'') = Fulfilled False
   \<and> requestForVersion
       \<lparr>probe = (\<lambda>u. (None, Some \<lparr>statusCode = 404\<rparr>)), stream = (\<lambda>u. [])\<rparr>
       (downloadLink_of ''8.0'') = Others
   \<and> snd (downloadCheckstyle
            \<lparr>probe = (\<lambda>u. (None, Some \<lparr>statusCode = 404\<rparr>)), stream = (\<lambda>u. [])\<rparr>
            \<lparr>files = {}, locked = Map.empty, blocked = {}, renameLatency = 0, trace = []\<rparr>
            ''/res'' ''8.0'' ''file:///A.java'') = Fulfilled False
   \<and> requestForVersion
       \<lparr>probe = (\<lambda>u. (None, Some \<lparr>statusCode = 302\<rparr>)),
       stream = (\<lambda>u. [OnProgress (1 / 2)]
                      @ OnError \<lparr>code = Some ''ECONNRESET'', message = Some ''socket hang up'',
                                 toString = ''Error: socket hang up''\<rparr> # [])\<rparr>
       (downloadLink_of ''8.0'') = Found
   \<and> tempFilePath_of ''/res'' ''8.0''
       \<notin> files \<lparr>files = {}, locked = Map.empty, blocked = {}, renameLatency = 0, trace = []\<rparr>
   \<and> snd (downloadCheckstyle
       \<lparr>probe = (\<lambda>u. (None, Some \<lparr>statusCode = 302\<rparr>)),
       stream = (\<lambda>u. [OnProgress (1 / 2)]
                      @ OnError \<lparr>code = Some ''ECONNRESET'', message = Some ''socket hang up'',
                                 toString = ''Error: socket hang up''\<rparr> # [])\<rparr>
       \<lparr>files = {}, locked = Map.empty, blocked = {}, renameLatency = 0, trace = []\<rparr>
       ''/res'' ''8.0'' ''file:///A.java'') = Fulfilled False"
proof -
  let ?w = "\<lparr>files = {}, locked = Map.empty, blocked = {}, renameLatency = 0, trace = []\<rparr>"
  let ?net0 = "\<lparr>probe = (\<lambda>u. (None, None)), stream = (\<lambda>u. [])\<rparr>"
  let ?net1 = "\<lparr>probe = (\<lambda>u. (None, Some \<lparr>statusCode = 404\<rparr>)), stream = (\<lambda>u. [])\<rparr>"
  let ?e = "\<lparr>code = Some ''ECONNRESET'', message = Some ''socket hang up'',
                       toString = ''Error: socket hang up''\<rparr>"
  let ?net2 = "\<lparr>probe = (\<lambda>u. (None, Some \<lparr>statusCode = 302\<rparr>)),
       stream = (\<lambda>u. [OnProgress (1 / 2)]
                      @ OnError \<lparr>code = Some ''ECONNRESET'', message = Some ''socket hang up'',
                                 toString = ''Error: socket hang up''\<rparr> # [])\<rparr>"
  have h0: "requestForVersion ?net0 (downloadLink_of ''8.0'') = Error"
    by (simp add: requestForVersion_def)
  have h1: "requestForVersion ?net1 (downloadLink_of ''8.0'') = Others"
    by (simp add: requestForVersion_def)
  have h2: "requestForVersion ?net2 (downloadLink_of ''8.0'') = Found"
    by (simp add: requestForVersion_def)
  have a2: "tempFilePath_of ''/res'' ''8.0'' \<notin> files ?w"
    by simp
  have s2: "\<exists>pre err post. stream ?net2 (downloadLink_of ''8.0'') = pre @ OnError err # post
      \<and> OnEnd \<notin> set pre"
  proof (intro exI conjI)
    show "stream ?net2 (downloadLink_of ''8.0'') = [OnProgress (1 / 2)] @ OnError ?e # []"
      by simp
    show "OnEnd \<notin> set [OnProgress (1 / 2)]"
      by simp
  qed
  from downloadCheckstyle_settlement [of ?net0 ?w "''/res''" "''8.0''" "''file:///A.java''"] h0
  have r0: "snd (downloadCheckstyle ?net0 ?w ''/res'' ''8.0'' ''file:///A.java'') = Fulfilled False"
    by blast
  from downloadCheckstyle_settlement [of ?net1 ?w "''/res''" "''8.0''" "''file:///A.java''"] h1
  have r1: "snd (downloadCheckstyle ?net1 ?w ''/res'' ''8.0'' ''file:///A.java'') = Fulfilled False"
    by blast
  from downloadCheckstyle_settlement [of ?net2 ?w "''/res''" "''8.0''" "''file:///A.java''"] h2 a2 s2
  have r2: "snd (downloadCheckstyle ?net2 ?w ''/res'' ''8.0'' ''file:///A.java'') = Fulfilled False"
    by blast
  from h0 r0 h1 r1 h2 a2 r2 show ?thesis by blast
qed

text \<open>
  C10, as stated, fails. The removal of the temporary file is awaited outside any
  \<^verbatim>\<open>try\<close>: when it fails, the promise of the call is rejected with its error.
\<close>

theorem downloadCheckstyle_rejected_counterexample:
  "requestForVersion
     \<lparr>probe = (\<lambda>u. (None, Some \<lparr>statusCode = 302\<rparr>)), stream = (\<lambda>u. [OnEnd])\<rparr>
     (downloadLink_of ''8.0'') = Found
   \<and> downloadCheckstyle
       \<lparr>probe = (\<lambda>u. (None, Some \<lparr>statusCode = 302\<rparr>)), stream = (\<lambda>u. [OnEnd])\<rparr>
       \<lparr>files = {''/res/checkstyle-8.0-all.jar.download''},
        locked = [''/res/checkstyle-8.0-all.jar.download'' \<mapsto>
                    \<lparr>code = Some ''EPERM'', message = Some ''operation not permitted'',
                     toString = ''Error: operation not permitted''\<rparr>],
        blocked = {}, renameLatency = 0, trace = []\<rparr>
       ''/res'' ''8.0'' ''file:///A.java''
     = (\<lparr>files = {''/res/checkstyle-8.0-all.jar.download''},
         locked = [''/res/checkstyle-8.0-all.jar.download'' \<mapsto>
                     \<lparr>code = Some ''EPERM'', message = Some ''operation not permitted'',
                      toString = ''Error: operation not permitted''\<rparr>],
         blocked = {}, renameLatency = 0, trace = []\<rparr>,
        Rejected \<lparr>code = Some ''EPERM'', message = Some ''operation not permitted'',
                  toString = ''Error: operation not permitted''\<rparr>)"
  by (simp add: run_simps)

section \<open>Properties of the controller\<close>

lemma pushItems_eq: "pushItems ed its result = result @ map (resolveItem ed) its"
  by (induction its arbitrary: result) simp_all

lemma resolveItem_null_iff:
  "(resolveItem ed item = None) = (\<exists>s. item_section item = Some s \<and> s \<noteq> [])"
  by (auto simp: resolveItem_def truthy_def Let_def split: option.splits)

text \<open>
  C7. The result is null exactly when the query has no \<open>items\<close> property, and then the
  query carries no items. Otherwise it is an array with one entry per item, entry \<open>i\<close>
  being the one computed from item \<open>i\<close>: null when the item has a non-empty section,
  whatever its scope uri, and a settings record in every other case.
\<close>

theorem computeConfiguration_shape:
  "((computeConfiguration ed params = None) = (items params = None))
   \<and> (computeConfiguration ed params = None \<longrightarrow> itemCount params = 0)
   \<and> (\<forall>ys. computeConfiguration ed params = Some ys \<longrightarrow>
         length ys = itemCount params
         \<and> (\<forall>its i. items params = Some its \<and> i < length its \<longrightarrow>
               ys ! i = resolveItem ed (its ! i)
               \<and> ((\<exists>s. item_section (its ! i) = Some s \<and> s \<noteq> []) \<longrightarrow> ys ! i = None)
               \<and> (\<not> (\<exists>s. item_section (its ! i) = Some s \<and> s \<noteq> [])
                     \<longrightarrow> (\<exists>settings. ys ! i = Some settings))))"
proof (cases "items params")
  case None
  then show ?thesis by (simp add: computeConfiguration_def itemCount_def)
next
  case (Some its)
  have "\<And>i. i < length its \<Longrightarrow>
          ((\<exists>s. item_section (its ! i) = Some s \<and> s \<noteq> []) \<longrightarrow> resolveItem ed (its ! i) = None)
          \<and> (\<not> (\<exists>s. item_section (its ! i) = Some s \<and> s \<noteq> [])
                \<longrightarrow> (\<exists>settings. resolveItem ed (its ! i) = Some settings))"
    using resolveItem_null_iff [of ed] by (metis option.exhaust)
  with Some show ?thesis
    by (simp add: computeConfiguration_def itemCount_def pushItems_eq)
qed

theorem computeConfiguration_shape_witness:
  "computeConfiguration
     \<lparr>asUri = (\<lambda>u. u),
               getConfiguration = (\<lambda>sec res.
                 if res = None
                 then \<lparr>stored_autocheck = None, stored_version = None,
                       stored_configurationFile = None, stored_propertiesPath = None\<rparr>
                 else \<lparr>stored_autocheck = Some True, stored_version = Some ''8.8'',
                       stored_configurationFile = Some ''sun_checks'',
                       stored_propertiesPath = Some ''/p.properties''\<rparr>)\<rparr>
     \<lparr>items = Some [\<lparr>item_section = Some ''java'', scopeUri = Some ''file:///a''\<rparr>,
                \<lparr>item_section = None, scopeUri = None\<rparr>,
                \<lparr>item_section = Some [], scopeUri = Some ''file:///a''\<rparr>]\<rparr>
   = Some [None,
             Some \<lparr>autocheck = False, version = ''8.0'', configurationFile = ''google_checks'',
                   propertiesPath = None\<rparr>,
             Some \<lparr>autocheck = True, version = ''8.8'', configurationFile = ''sun_checks'',
                   propertiesPath = Some ''/p.properties''\<rparr>]
   \<and> length [None,
             Some \<lparr>autocheck = False, version = ''8.0'', configurationFile = ''google_checks'',
                   propertiesPath = None\<rparr>,
             Some \<lparr>autocheck = True, version = ''8.8'', configurationFile = ''sun_checks'',
                   propertiesPath = Some ''/p.properties''\<rparr>] = itemCount \<lparr>items = Some [\<lparr>item_section = Some ''java'', scopeUri = Some ''file:///a''\<rparr>,
                \<lparr>item_section = None, scopeUri = None\<rparr>,
                \<lparr>item_section = Some [], scopeUri = Some ''file:///a''\<rparr>]\<rparr>"
proof -
  let ?ed = "\<lparr>asUri = (\<lambda>u. u),
               getConfiguration = (\<lambda>sec res.
                 if res = None
                 then \<lparr>stored_autocheck = None, stored_version = None,
                       stored_configurationFile = None, stored_propertiesPath = None\<rparr>
                 else \<lparr>stored_autocheck = Some True, stored_version = Some ''8.8'',
                       stored_configurationFile = Some ''sun_checks'',
                       stored_propertiesPath = Some ''/p.properties''\<rparr>)\<rparr>"
  let ?its = "[\<lparr>item_section = Some ''java'', scopeUri = Some ''file:///a''\<rparr>,
                \<lparr>item_section = None, scopeUri = None\<rparr>,
                \<lparr>item_section = Some [], scopeUri = Some ''file:///a''\<rparr>]"
  let ?ys = "[None,
             Some \<lparr>autocheck = False, version = ''8.0'', configurationFile = ''google_checks'',
                   propertiesPath = None\<rparr>,
             Some \<lparr>autocheck = True, version = ''8.8'', configurationFile = ''sun_checks'',
                   propertiesPath = Some ''/p.properties''\<rparr>]"
  have run: "computeConfiguration ?ed \<lparr>items = Some ?its\<rparr> = Some ?ys"
    by (simp add: computeConfiguration_def resolveItem_def truthy_def get_or_def)
  from computeConfiguration_shape [of ?ed "\<lparr>items = Some ?its\<rparr>"] run
  have "length ?ys = itemCount \<lparr>items = Some ?its\<rparr>"
    by blast
  with run show ?thesis by blast
qed

text \<open>
  C8. For an item with no section (absent or empty), the entry is a settings record read
  from the configuration of the item's scope uri when that is present and not empty, and
  from the workspace configuration otherwise: a stored value is returned as it is; unset,
  autocheck is false, version is 8.0, configurationFile is google_checks, and
  propertiesPath is absent.
\<close>

theorem computeConfiguration_settings:
  assumes "items params = Some its" and "i < length its"
    and "item_section (its ! i) = None \<or> item_section (its ! i) = Some []"
  shows "\<exists>ys settings config.
           computeConfiguration ed params = Some ys \<and> ys ! i = Some settings
           \<and> config = (case scopeUri (its ! i) of
                         Some u \<Rightarrow> (if u \<noteq> [] then getConfiguration ed ''checkstyle'' (Some (asUri ed u))
                                     else getConfiguration ed ''checkstyle'' None)
                       | None \<Rightarrow> getConfiguration ed ''checkstyle'' None)
           \<and> autocheck settings = (case stored_autocheck config of Some b \<Rightarrow> b | None \<Rightarrow> False)
           \<and> version settings = (case stored_version config of Some v \<Rightarrow> v | None \<Rightarrow> ''8.0'')
           \<and> configurationFile settings =
               (case stored_configurationFile config of Some f \<Rightarrow> f | None \<Rightarrow> ''google_checks'')
           \<and> propertiesPath settings = stored_propertiesPath config"
  using assms
  by (auto simp: computeConfiguration_def pushItems_eq resolveItem_def truthy_def get_or_def Let_def)

theorem computeConfiguration_settings_witness:
  "items \<lparr>items = Some [\<lparr>item_section = Some ''java'', scopeUri = Some ''file:///a''\<rparr>,
                \<lparr>item_section = None, scopeUri = None\<rparr>,
                \<lparr>item_section = Some [], scopeUri = Some ''file:///a''\<rparr>]\<rparr> = Some [\<lparr>item_section = Some ''java'', scopeUri = Some ''file:///a''\<rparr>,
                \<lparr>item_section = None, scopeUri = None\<rparr>,
                \<lparr>item_section = Some [], scopeUri = Some ''file:///a''\<rparr>]
   \<and> (1::nat) < length [\<lparr>item_section = Some ''java'', scopeUri = Some ''file:///a''\<rparr>,
                \<lparr>item_section = None, scopeUri = None\<rparr>,
                \<lparr>item_section = Some [], scopeUri = Some ''file:///a''\<rparr>]
   \<and> (item_section ([\<lparr>item_section = Some ''java'', scopeUri = Some ''file:///a''\<rparr>,
                \<lparr>item_section = None, scopeUri = None\<rparr>,
                \<lparr>item_section = Some [], scopeUri = Some ''file:///a''\<rparr>] ! 1) = None \<or> item_section ([\<lparr>item_section = Some ''java'', scopeUri = Some ''file:///a''\<rparr>,
                \<lparr>item_section = None, scopeUri = None\<rparr>,
                \<lparr>item_section = Some [], scopeUri = Some ''file:///a''\<rparr>] ! 1) = Some [])
   \<and> (\<exists>ys settings.
         computeConfiguration
           \<lparr>asUri = (\<lambda>u. u),
               getConfiguration = (\<lambda>sec res.
                 if res = None
                 then \<lparr>stored_autocheck = None, stored_version = None,
                       stored_configurationFile = None, stored_propertiesPath = None\<rparr>
                 else \<lparr>stored_autocheck = Some True, stored_version = Some ''8.8'',
                       stored_configurationFile = Some ''sun_checks'',
                       stored_propertiesPath = Some ''/p.properties''\<rparr>)\<rparr>
           \<lparr>items = Some [\<lparr>item_section = Some ''java'', scopeUri = Some ''file:///a''\<rparr>,
                \<lparr>item_section = None, scopeUri = None\<rparr>,
                \<lparr>item_section = Some [], scopeUri = Some ''file:///a''\<rparr>]\<rparr> = Some ys
         \<and> ys ! 1 = Some settings
         \<and> autocheck settings = False \<and> version settings = ''8.0''
         \<and> configurationFile settings = ''google_checks'' \<and> propertiesPath settings = None)"
proof -
  let ?ed = "\<lparr>asUri = (\<lambda>u. u),
               getConfiguration = (\<lambda>sec res.
                 if res = None
                 then \<lparr>stored_autocheck = None, stored_version = None,
                       stored_configurationFile = None, stored_propertiesPath = None\<rparr>
                 else \<lparr>stored_autocheck = Some True, stored_version = Some ''8.8'',
                       stored_configurationFile = Some ''sun_checks'',
                       stored_propertiesPath = Some ''/p.properties''\<rparr>)\<rparr>"
  let ?its = "[\<lparr>item_section = Some ''java'', scopeUri = Some ''file:///a''\<rparr>,
                \<lparr>item_section = None, scopeUri = None\<rparr>,
                \<lparr>item_section = Some [], scopeUri = Some ''file:///a''\<rparr>]"
  have a: "items \<lparr>items = Some ?its\<rparr> = Some ?its" by simp
  have b: "(1::nat) < length ?its" by simp
  have c: "item_section (?its ! 1) = None \<or> item_section (?its ! 1) = Some []" by simp
  from computeConfiguration_settings [OF a b c, of ?ed]
  obtain ys settings where
    "computeConfiguration ?ed \<lparr>items = Some ?its\<rparr> = Some ys" "ys ! 1 = Some settings"
    "autocheck settings = False" "version settings = ''8.0''"
    "configurationFile settings = ''google_checks''" "propertiesPath settings = None"
    by auto
  with a b c show ?thesis by blast
qed

text \<open>
  C9. When the callback throws the cancellation error, nothing is logged and nothing is
  shown. When it throws any other error, the formatted message is appended to the output
  channel and then shown as an error message; the formatted message wraps the message of
  the error when that is a string, and its string form otherwise.
\<close>

theorem initCommand_errors:
  "initCommand (Threw UserCancelledError) ui = ui
   \<and> initCommand (Threw (OtherError e)) ui =
       ui @ [AppendLine (getErrorMessage e), ShowErrorMessage (getErrorMessage e)]
   \<and> (\<forall>m. message e = Some m \<longrightarrow>
         getErrorMessage e = ''Checkstyle Error: - '' @ [CHR 0x27] @ m @ [CHR 0x27])
   \<and> (message e = None \<longrightarrow>
         getErrorMessage e = ''Checkstyle Error: - '' @ [CHR 0x27] @ toString e @ [CHR 0x27])"
  by (simp add: initCommand_def getErrorMessage_def Let_def)

theorem initCommand_errors_witness:
  "message \<lparr>code = None, message = Some ''boom'', toString = ''Error: boom''\<rparr> = Some ''boom''
   \<and> initCommand
       (Threw (OtherError \<lparr>code = None, message = Some ''boom'', toString = ''Error: boom''\<rparr>)) []
     = [AppendLine (''Checkstyle Error: - '' @ [CHR 0x27] @ ''boom'' @ [CHR 0x27]),
        ShowErrorMessage (''Checkstyle Error: - '' @ [CHR 0x27] @ ''boom'' @ [CHR 0x27])]
   \<and> initCommand (Threw UserCancelledError) [] = []"
proof -
  let ?e = "\<lparr>code = None, message = Some ''boom'', toString = ''Error: boom''\<rparr>"
  have m: "message ?e = Some ''boom''" by simp
  from initCommand_errors [of "[]" ?e] m
  have "initCommand (Threw UserCancelledError) [] = []"
    and "initCommand (Threw (OtherError ?e)) [] =
           [AppendLine (getErrorMessage ?e), ShowErrorMessage (getErrorMessage ?e)]"
    and "getErrorMessage ?e = ''Checkstyle Error: - '' @ [CHR 0x27] @ ''boom'' @ [CHR 0x27]"
    by simp_all
  with m show ?thesis by simp
qed

subsection \<open>The download status handler\<close>

lemma onDownloadStatus_keeps:
  "statusHandler (onDownloadStatus k param c) = statusHandler c"
  "length (progressTasks (onDownloadStatus k param c)) = length (progressTasks c)"
  "take k (progressTasks (onDownloadStatus k param c)) = take k (progressTasks c)"
  by (simp_all add: onDownloadStatus_def split: DownloadStatus.split option.split)

lemma receive_status_keeps:
  "statusHandler (receive c (DownloadStatusNotification param)) = statusHandler c"
  by (simp add: onDownloadStatus_keeps split: option.split)

lemma receiveAll_statuses:
  assumes "\<forall>n \<in> set ns. \<exists>param. n = DownloadStatusNotification param"
    and "statusHandler c = Some k"
  shows "statusHandler (receiveAll c ns) = Some k
    \<and> take k (progressTasks (receiveAll c ns)) = take k (progressTasks c)"
  using assms
proof (induction ns arbitrary: c)
  case Nil
  then show ?case by simp
next
  case (Cons n ns)
  from Cons.prems(1) obtain param where n: "n = DownloadStatusNotification param" by auto
  let ?c = "receive c n"
  have h: "statusHandler ?c = Some k"
    using Cons.prems(2) by (simp add: n onDownloadStatus_keeps)
  have t: "take k (progressTasks ?c) = take k (progressTasks c)"
    using Cons.prems(2) by (simp add: n onDownloadStatus_keeps)
  from Cons.IH [of ?c] Cons.prems(1) h t show ?case by simp
qed

text \<open>
  C6, as amended. The controller does not detach the handler of download status
  notifications: receiving a status notification, terminal or not, leaves the registered
  handler in place. The handler changes only when a \<open>DownloadStart\<close> arrives, which
  registers the handler of the new task in the place of the one before; the status
  notifications that follow reach the handler of the new task and leave the promises of
  the tasks before it as they were.
\<close>

theorem status_handler_kept:
  "statusHandler (receive c (DownloadStatusNotification param)) = statusHandler c
   \<and> statusHandler (receive c DownloadStartNotification) = Some (length (progressTasks c))
   \<and> (\<forall>ns. (\<forall>n \<in> set ns. \<exists>p. n = DownloadStatusNotification p) \<longrightarrow>
         statusHandler (receiveAll (receive c DownloadStartNotification) ns)
           = Some (length (progressTasks c))
         \<and> take (length (progressTasks c))
              (progressTasks (receiveAll (receive c DownloadStartNotification) ns))
           = progressTasks c)"
proof -
  let ?c = "receive c DownloadStartNotification"
  have start: "statusHandler ?c = Some (length (progressTasks c))"
    by (simp add: Let_def)
  have tasks: "take (length (progressTasks c)) (progressTasks ?c) = progressTasks c"
    by (simp add: Let_def)
  have "statusHandler (receiveAll ?c ns) = Some (length (progressTasks c))
      \<and> take (length (progressTasks c)) (progressTasks (receiveAll ?c ns)) = progressTasks c"
    if "\<forall>n \<in> set ns. \<exists>p. n = DownloadStatusNotification p" for ns
    using receiveAll_statuses [OF that start] tasks by simp
  with start receive_status_keeps [of c param] show ?thesis by blast
qed

theorem status_handler_kept_witness:
  "list_all (\<lambda>n. \<exists>p. n = DownloadStatusNotification p)
     [downloadingStatus 10, finishedStatus :: ErrorObject notification]
   \<and> statusHandler
       (receiveAll
          (receive \<lparr>statusHandler = Some 0, progressTasks = [Fulfilled ()], shown = [ReportFetching 0]\<rparr>
             DownloadStartNotification)
          [downloadingStatus 10, finishedStatus]) = Some 1
   \<and> progressTasks
       (receiveAll
          (receive \<lparr>statusHandler = Some 0, progressTasks = [Fulfilled ()], shown = [ReportFetching 0]\<rparr>
             DownloadStartNotification)
          [downloadingStatus 10, finishedStatus]) = [Fulfilled (), Fulfilled ()]"
proof -
  let ?c = "\<lparr>statusHandler = Some 0, progressTasks = [Fulfilled ()], shown = [ReportFetching 0]\<rparr>"
  let ?ns = "[downloadingStatus 10, finishedStatus :: ErrorObject notification]"
  have h: "\<forall>n \<in> set ?ns. \<exists>p. n = DownloadStatusNotification p" by simp
  then have h': "list_all (\<lambda>n. \<exists>p. n = DownloadStatusNotification p) ?ns"
    by (simp only: list_all_iff)
  from status_handler_kept [of ?c] h
  have "statusHandler (receiveAll (receive ?c DownloadStartNotification) ?ns)
          = Some (length (progressTasks ?c))"
    by blast
  then have a: "statusHandler (receiveAll (receive ?c DownloadStartNotification) ?ns) = Some 1"
    by simp
  have b: "progressTasks (receiveAll (receive ?c DownloadStartNotification) ?ns)
             = [Fulfilled (), Fulfilled ()]"
    by (simp add: onDownloadStatus_def Let_def resolve_def)
  from h' a b show ?thesis by blast
qed

text \<open>
  C6, as stated, fails. After a \<open>DownloadStart\<close> and a \<open>finished\<close> status the handler
  of that task is still registered, and a status notification that arrives next is
  reported on the progress of that task.
\<close>

theorem status_handler_detached_counterexample:
  "statusHandler (receiveAll registerClientListener [DownloadStartNotification, finishedStatus]) = Some 0
   \<and> shown (receiveAll registerClientListener
              [DownloadStartNotification, finishedStatus, downloadingStatus 7])
       = [ReportFetching 0, ReportDownloading 0 (Some 7)]"
  by (simp add: registerClientListener_def onDownloadStatus_def Let_def)

end
